theory Spec2Isabelle
  imports Main
begin

section \<open>The SSD backbone \<open>BasicModel\<close> (ssd/modeling/backbones/basic.py)\<close>

text \<open>
  The class builds six \<open>torch.nn.Sequential\<close> stages out of \<open>Conv2d\<close>, \<open>ReLU\<close> and
  \<open>MaxPool2d\<close> modules and, in \<open>forward\<close>, applies them one after the other, collects
  the six activations and asserts their shapes.

  Channel counts, kernel sizes, strides, paddings and tensor dimensions are natural
  numbers. The numbers a layer computes (floating point) are not modelled: a tensor
  is its shape, its element type and its device together with an opaque payload, and
  what a module does to the payload is a parameter \<open>num\<close> of the model.
\<close>

subsection \<open>Errors\<close>

text \<open>
  The two \<open>assert\<close> statements of \<open>forward\<close> carry a formatted message; the model keeps
  the values the message is formatted from.
\<close>

datatype assertion =
    ShapeAssertion "nat list" "nat list" nat
  | LengthAssertion nat nat

datatype error =
    IndexError
  | ValueError
  | RuntimeError
  | AssertionError assertion

definition bind :: "error + 'a \<Rightarrow> ('a \<Rightarrow> error + 'b) \<Rightarrow> error + 'b" where
  "bind r f = (case r of Inl e \<Rightarrow> Inl e | Inr v \<Rightarrow> f v)"

text \<open>\<open>xs[i]\<close> for a literal or loop index \<open>i \<ge> 0\<close>: out of range raises \<open>IndexError\<close>.\<close>

definition getitem :: "'a list \<Rightarrow> nat \<Rightarrow> error + 'a" where
  "getitem xs i = (if i < length xs then Inr (xs ! i) else Inl IndexError)"

text \<open>\<open>h, w = t\<close>: unpacking anything but a pair raises \<open>ValueError\<close>.\<close>

definition unpack_pair :: "'a list \<Rightarrow> error + 'a \<times> 'a" where
  "unpack_pair t = (case t of [h, w] \<Rightarrow> Inr (h, w) | _ \<Rightarrow> Inl ValueError)"

subsection \<open>Tensors and the framework's modules\<close>

text \<open>
  A dense tensor: \<open>x.shape\<close>, \<open>x.dtype\<close>, \<open>x.device\<close> and the elements.
\<close>

datatype dtype =
    Float16 | BFloat16 | Float32 | Float64 | Complex64 | Complex128
  | UInt8 | Int8 | Int16 | Int32 | Int64 | Bool

datatype device = Cpu | Cuda nat

record 'd tensor =
  shape :: "nat list"
  dtype :: dtype
  device :: device
  data :: 'd

text \<open>
  \<open>Conv2d in_channels out_channels kernel_size padding stride\<close> (stride defaults to 1
  where the source leaves it out), \<open>ReLU\<close>, and \<open>MaxPool2d kernel_size stride\<close>.
\<close>

datatype module =
    Conv2d nat nat nat nat nat
  | ReLU
  | MaxPool2d nat nat

type_synonym Sequential = "module list"

text \<open>
  The framework's output-size arithmetic for one spatial dimension (dilation 1, no
  ceiling mode): \<open>\<lfloor>(n + 2 p - k) / s\<rfloor> + 1\<close> for a convolution,
  \<open>\<lfloor>(n - k) / s\<rfloor> + 1\<close> for a pooling window without padding. The callers guard the
  subtraction.
\<close>

fun out_size :: "module \<Rightarrow> nat \<Rightarrow> nat" where
  "out_size (Conv2d ic oc k p s) n = (n + 2 * p - k) div s + 1"
| "out_size ReLU n = n"
| "out_size (MaxPool2d k s) n = (n - k) div s + 1"

text \<open>
  Whether a module accepts a channel count and a spatial size: a convolution wants its
  configured input channels, at least one input and one output channel and a padded
  input no smaller than the kernel; a pooling layer wants a non-empty channel
  dimension and an input no smaller than its window.
\<close>

fun channels_ok :: "module \<Rightarrow> nat \<Rightarrow> bool" where
  "channels_ok (Conv2d ic oc k p s) c = (c = ic \<and> 0 < ic \<and> 0 < oc)"
| "channels_ok ReLU c = True"
| "channels_ok (MaxPool2d k s) c = (0 < c)"

fun size_ok :: "module \<Rightarrow> nat \<Rightarrow> bool" where
  "size_ok (Conv2d ic oc k p s) n = (0 < k \<and> 0 < s \<and> k \<le> n + 2 * p)"
| "size_ok ReLU n = True"
| "size_ok (MaxPool2d k s) n = (0 < k \<and> 0 < s \<and> k \<le> n)"

fun out_channels_of :: "module \<Rightarrow> nat \<Rightarrow> nat" where
  "out_channels_of (Conv2d ic oc k p s) c = oc"
| "out_channels_of ReLU c = c"
| "out_channels_of (MaxPool2d k s) c = c"

text \<open>
  The shape a module produces, as the framework documents it. \<open>ReLU\<close> keeps any
  shape. \<open>Conv2d\<close> and \<open>MaxPool2d\<close> take a batched \<open>(N, C, H, W)\<close> or an unbatched
  \<open>(C, H, W)\<close> input, of any batch size, and raise \<open>RuntimeError\<close> on an input of
  another rank, with the wrong number of channels, without channels or too small for
  the kernel.
\<close>

fun module_shape :: "module \<Rightarrow> nat list \<Rightarrow> error + nat list" where
  "module_shape ReLU s = Inr s"
| "module_shape m [n, c, h, w] =
     (if channels_ok m c \<and> size_ok m h \<and> size_ok m w
      then Inr [n, out_channels_of m c, out_size m h, out_size m w]
      else Inl RuntimeError)"
| "module_shape m [c, h, w] =
     (if channels_ok m c \<and> size_ok m h \<and> size_ok m w
      then Inr [out_channels_of m c, out_size m h, out_size m w]
      else Inl RuntimeError)"
| "module_shape m s = Inl RuntimeError"

text \<open>
  The weight and bias of a \<open>Conv2d\<close> are created by its constructor with the
  framework's default element type on its default device, and \<open>__init__\<close> does not
  convert or move them. A convolution raises \<open>RuntimeError\<close> on an input of another
  element type or on another device. \<open>ReLU\<close> and \<open>MaxPool2d\<close> have no parameters;
  which element types their kernels support is not modelled: in this class they only
  ever receive the output of a convolution.
\<close>

definition parameter_dtype :: dtype where "parameter_dtype = Float32"
definition parameter_device :: device where "parameter_device = Cpu"

fun accepts :: "module \<Rightarrow> dtype \<Rightarrow> device \<Rightarrow> bool" where
  "accepts (Conv2d ic oc k p s) t d = (t = parameter_dtype \<and> d = parameter_device)"
| "accepts ReLU t d = True"
| "accepts (MaxPool2d k s) t d = True"

text \<open>
  Calling a module: the result has the shape computed above and the element type and
  device of the input; its payload comes from the framework's kernel.
\<close>

definition module_call :: "(module \<Rightarrow> 'd tensor \<Rightarrow> 'd) \<Rightarrow> module \<Rightarrow> 'd tensor \<Rightarrow> error + 'd tensor" where
  "module_call num m x =
     (if accepts m (dtype x) (device x)
      then bind (module_shape m (shape x))
             (\<lambda>s. Inr \<lparr>shape = s, dtype = dtype x, device = device x, data = num m x\<rparr>)
      else Inl RuntimeError)"

text \<open>A \<open>Sequential\<close> feeds each module's output to the next one.\<close>

fun Sequential_call :: "(module \<Rightarrow> 'd tensor \<Rightarrow> 'd) \<Rightarrow> Sequential \<Rightarrow> 'd tensor \<Rightarrow> error + 'd tensor" where
  "Sequential_call num [] x = Inr x"
| "Sequential_call num (m # ms) x = bind (module_call num m x) (Sequential_call num ms)"

subsection \<open>The class\<close>

record BasicModel =
  out_channels :: "nat list"
  output_feature_shape :: "nat list list"
  layer_1 :: Sequential
  layer_2 :: Sequential
  layer_3 :: Sequential
  layer_4 :: Sequential
  layer_5 :: Sequential
  layer_6 :: Sequential
  layers :: "Sequential list"

definition CONV_PADDING :: nat where "CONV_PADDING = 1"
definition CONV_KERNEL_SIZE :: nat where "CONV_KERNEL_SIZE = 3"
definition MAX_POOL_KERNEL_SIZE :: nat where "MAX_POOL_KERNEL_SIZE = 2"
definition MAX_POOL_STRIDE :: nat where "MAX_POOL_STRIDE = 2"

text \<open>
  \<open>__init__\<close>. The stages are built in the order of the source; each read
  \<open>output_channels[i]\<close> may raise \<open>IndexError\<close>, and then nothing is built.
\<close>

definition BasicModel_init :: "nat list \<Rightarrow> nat \<Rightarrow> nat list list \<Rightarrow> error + BasicModel" where
  "BasicModel_init output_channels image_channels output_feature_sizes =
     bind (getitem output_channels 0) (\<lambda>oc0.
     let l1 = [Conv2d image_channels 32 CONV_KERNEL_SIZE CONV_PADDING 1,
               ReLU,
               MaxPool2d MAX_POOL_KERNEL_SIZE MAX_POOL_STRIDE,
               Conv2d 32 64 CONV_KERNEL_SIZE CONV_PADDING 1,
               ReLU,
               MaxPool2d MAX_POOL_KERNEL_SIZE MAX_POOL_STRIDE,
               Conv2d 64 64 CONV_KERNEL_SIZE CONV_PADDING 1,
               ReLU,
               Conv2d 64 oc0 CONV_KERNEL_SIZE CONV_PADDING 2,
               ReLU] in
     bind (getitem output_channels 0) (\<lambda>ic2.
     bind (getitem output_channels 1) (\<lambda>oc1.
     let l2 = [Conv2d ic2 128 CONV_KERNEL_SIZE CONV_PADDING 1,
               ReLU,
               Conv2d 128 oc1 CONV_KERNEL_SIZE CONV_PADDING 2,
               ReLU] in
     bind (getitem output_channels 1) (\<lambda>ic3.
     bind (getitem output_channels 2) (\<lambda>oc2.
     let l3 = [Conv2d ic3 256 CONV_KERNEL_SIZE CONV_PADDING 1,
               ReLU,
               Conv2d 256 oc2 CONV_KERNEL_SIZE CONV_PADDING 2,
               ReLU] in
     bind (getitem output_channels 2) (\<lambda>ic4.
     bind (getitem output_channels 3) (\<lambda>oc3.
     let l4 = [Conv2d ic4 128 CONV_KERNEL_SIZE CONV_PADDING 1,
               ReLU,
               Conv2d 128 oc3 CONV_KERNEL_SIZE CONV_PADDING 2,
               ReLU] in
     bind (getitem output_channels 3) (\<lambda>ic5.
     bind (getitem output_channels 4) (\<lambda>oc4.
     let l5 = [Conv2d ic5 128 CONV_KERNEL_SIZE CONV_PADDING 1,
               ReLU,
               Conv2d 128 oc4 CONV_KERNEL_SIZE CONV_PADDING 2,
               ReLU] in
     bind (getitem output_channels 4) (\<lambda>ic6.
     bind (getitem output_channels 5) (\<lambda>oc5.
     let l6 = [Conv2d ic6 128 CONV_KERNEL_SIZE CONV_PADDING 1,
               ReLU,
               Conv2d 128 oc5 CONV_KERNEL_SIZE 0 1,
               ReLU] in
     Inr \<lparr>out_channels = output_channels,
          output_feature_shape = output_feature_sizes,
          layer_1 = l1, layer_2 = l2, layer_3 = l3,
          layer_4 = l4, layer_5 = l5, layer_6 = l6,
          layers = [l1, l2, l3, l4, l5, l6]\<rparr>)))))))))))"

text \<open>
  The first loop of \<open>forward\<close>: \<open>activation\<close> runs through the layers and every
  intermediate result is appended to \<open>out_features\<close>.
\<close>

fun run_layers ::
  "(module \<Rightarrow> 'd tensor \<Rightarrow> 'd) \<Rightarrow> Sequential list \<Rightarrow> 'd tensor \<Rightarrow> 'd tensor list
     \<Rightarrow> error + 'd tensor list" where
  "run_layers num [] activation out_features = Inr out_features"
| "run_layers num (layer # rest) activation out_features =
     bind (Sequential_call num layer activation)
       (\<lambda>a. run_layers num rest a (out_features @ [a]))"

text \<open>
  The second loop, \<open>for idx, feature in enumerate(out_features)\<close>, from index \<open>idx\<close>
  on: two list reads, the unpacking of the size pair, and the shape assertion.
\<close>

fun check_shapes :: "BasicModel \<Rightarrow> nat \<Rightarrow> 'd tensor list \<Rightarrow> error + unit" where
  "check_shapes self idx [] = Inr ()"
| "check_shapes self idx (feature # rest) =
     bind (getitem (out_channels self) idx) (\<lambda>out_channel.
     bind (getitem (output_feature_shape self) idx) (\<lambda>t.
     bind (unpack_pair t) (\<lambda>(h, w).
     let expected_shape = [out_channel, h, w] in
     if drop 1 (shape feature) = expected_shape
     then check_shapes self (Suc idx) rest
     else Inl (AssertionError (ShapeAssertion expected_shape (drop 1 (shape feature)) idx)))))"

text \<open>
  \<open>forward\<close> returns the tuple of features or raises. It assigns to no field of the
  object, which is passed back as the second component; the writes of the method to
  the objects behind the fields are the subject of the next subsection.
\<close>

definition forward ::
  "(module \<Rightarrow> 'd tensor \<Rightarrow> 'd) \<Rightarrow> BasicModel \<Rightarrow> 'd tensor
     \<Rightarrow> (error + 'd tensor list) \<times> BasicModel" where
  "forward num self x =
     (bind (run_layers num (layers self) x []) (\<lambda>out_features.
      bind (check_shapes self 0 out_features) (\<lambda>_.
      if length out_features = length (output_feature_shape self)
      then Inr out_features
      else Inl (AssertionError
                 (LengthAssertion (length (output_feature_shape self)) (length out_features))))),
      self)"

subsection \<open>The forward pass on a store of objects\<close>

text \<open>
  The fields of an instance are references to mutable objects, and \<open>forward\<close> writes
  into a list (\<open>out_features.append\<close>). To state what the call leaves untouched, the
  method is given a second time, statement by statement, over a store: a list of
  objects, of which the addresses are the positions. Every write of the method is a
  write to this store. Tensors are values here, and a stage is called as above, by
  \<open>Sequential_call\<close>: the modules of the stages (\<open>Conv2d\<close>, \<open>ReLU\<close> not in place,
  \<open>MaxPool2d\<close>) compute a new tensor from their input and have no buffer that the
  call updates.
\<close>

type_synonym addr = nat

text \<open>The attributes of an instance: each one holds a reference.\<close>


record attributes =
  out_channels_at :: addr
  output_feature_shape_at :: addr
  layer_1_at :: addr
  layer_2_at :: addr
  layer_3_at :: addr
  layer_4_at :: addr
  layer_5_at :: addr
  layer_6_at :: addr
  layers_at :: addr

text \<open>
  The objects: the list of channel counts, the list of feature sizes, a
  \<open>Sequential\<close>, the Python list \<open>self.layers\<close> of references to the stages, a
  list of tensors such as \<open>out_features\<close>, and the instance itself.
\<close>

datatype 'd object =
    IntList "nat list"
  | SizeList "nat list list"
  | Module Sequential
  | LayerList "addr list"
  | TensorList "'d tensor list"
  | Instance attributes

type_synonym 'd store = "'d object list"

text \<open>
  Reading a reference, allocating an object (\<open>out_features = []\<close>) at an address not
  in use, \<open>list.append\<close>, which writes into the list object itself, and reading
  an attribute of an instance.
\<close>

definition lookup :: "'d store \<Rightarrow> addr \<Rightarrow> 'd object option" where
  "lookup h a = (if a < length h then Some (h ! a) else None)"

definition new :: "'d object \<Rightarrow> 'd store \<Rightarrow> addr \<times> 'd store" where
  "new obj h = (length h, h @ [obj])"

definition list_append :: "addr \<Rightarrow> 'd tensor \<Rightarrow> 'd store \<Rightarrow> 'd store option" where
  "list_append a t h =
     (case lookup h a of
        Some (TensorList ts) \<Rightarrow> Some (h[a := TensorList (ts @ [t])])
      | _ \<Rightarrow> None)"

definition attribute :: "'d store \<Rightarrow> addr \<Rightarrow> (attributes \<Rightarrow> addr) \<Rightarrow> 'd object option" where
  "attribute h self f =
     (case lookup h self of Some (Instance d) \<Rightarrow> lookup h (f d) | _ \<Rightarrow> None)"

text \<open>
  \<open>for layer in self.layers\<close> from position \<open>i\<close> on: the iterator holds the reference
  \<open>ls\<close> to the list and reads its length and its entry \<open>i\<close> from the store at every
  step, as Python's list iterator does; the body calls the stage and appends the
  result to the list at \<open>out_features\<close>. A store in which a reference does not lead
  to an object of the expected kind gives \<open>None\<close>.
\<close>

partial_function (option) layer_loop ::
  "(module \<Rightarrow> 'd tensor \<Rightarrow> 'd) \<Rightarrow> addr \<Rightarrow> nat \<Rightarrow> 'd tensor \<Rightarrow> addr \<Rightarrow> 'd store
     \<Rightarrow> ((error + unit) \<times> 'd store) option" where
  "layer_loop num ls i activation out_features h =
     (case lookup h ls of
        Some (LayerList refs) \<Rightarrow>
          if i < length refs then
            (case lookup h (refs ! i) of
               Some (Module layer) \<Rightarrow>
                 (case Sequential_call num layer activation of
                    Inl e \<Rightarrow> Some (Inl e, h)
                  | Inr a \<Rightarrow>
                      (case list_append out_features a h of
                         Some h' \<Rightarrow> layer_loop num ls (Suc i) a out_features h'
                       | None \<Rightarrow> None))
             | _ \<Rightarrow> None)
          else Some (Inr (), h)
      | _ \<Rightarrow> None)"

text \<open>
  The body of the second loop at index \<open>idx\<close>, on the two lists the attributes refer
  to, and the loop \<open>for idx, feature in enumerate(out_features)\<close> from \<open>idx\<close> on, which
  reads the attributes of \<open>self\<close> at every step.
\<close>

definition assert_at :: "nat list \<Rightarrow> nat list list \<Rightarrow> nat \<Rightarrow> 'd tensor \<Rightarrow> error + unit" where
  "assert_at cs ss idx feature =
     bind (getitem cs idx) (\<lambda>out_channel.
     bind (getitem ss idx) (\<lambda>t.
     bind (unpack_pair t) (\<lambda>(h, w).
     let expected_shape = [out_channel, h, w] in
     if drop 1 (shape feature) = expected_shape
     then Inr ()
     else Inl (AssertionError (ShapeAssertion expected_shape (drop 1 (shape feature)) idx)))))"

function assert_loop :: "addr \<Rightarrow> addr \<Rightarrow> nat \<Rightarrow> 'd store \<Rightarrow> (error + unit) option" where
  "assert_loop self out_features idx h =
     (case lookup h out_features of
        Some (TensorList fs) \<Rightarrow>
          if idx < length fs then
            (case attribute h self out_channels_at of
               Some (IntList cs) \<Rightarrow>
                 (case attribute h self output_feature_shape_at of
                    Some (SizeList ss) \<Rightarrow>
                      (case assert_at cs ss idx (fs ! idx) of
                         Inl e \<Rightarrow> Some (Inl e)
                       | Inr _ \<Rightarrow> assert_loop self out_features (Suc idx) h)
                  | _ \<Rightarrow> None)
             | _ \<Rightarrow> None)
          else Some (Inr ())
      | _ \<Rightarrow> None)"
  by pat_completeness auto
termination
  by (relation "measure (\<lambda>(self, out_features, idx, h).
        (case lookup h out_features of Some (TensorList fs) \<Rightarrow> length fs - idx | _ \<Rightarrow> 0))")
     auto

text \<open>
  \<open>forward\<close> on the store: the result or the exception, and the store after the call.
\<close>

definition forward_store ::
  "(module \<Rightarrow> 'd tensor \<Rightarrow> 'd) \<Rightarrow> addr \<Rightarrow> 'd tensor \<Rightarrow> 'd store
     \<Rightarrow> ((error + 'd tensor list) \<times> 'd store) option" where
  "forward_store num self x h =
     (let (out_features, h0) = new (TensorList []) h in
      case lookup h0 self of
        Some (Instance d) \<Rightarrow>
          (case layer_loop num (layers_at d) 0 x out_features h0 of
             Some (Inl e, h1) \<Rightarrow> Some (Inl e, h1)
           | Some (Inr _, h1) \<Rightarrow>
               (case assert_loop self out_features 0 h1 of
                  Some (Inl e) \<Rightarrow> Some (Inl e, h1)
                | Some (Inr _) \<Rightarrow>
                    (case lookup h1 out_features of
                       Some (TensorList fs) \<Rightarrow>
                         (case attribute h1 self output_feature_shape_at of
                            Some (SizeList ss) \<Rightarrow>
                              if length fs = length ss
                              then Some (Inr fs, h1)
                              else Some (Inl (AssertionError
                                                (LengthAssertion (length ss) (length fs))), h1)
                          | _ \<Rightarrow> None)
                     | _ \<Rightarrow> None)
                | None \<Rightarrow> None)
           | None \<Rightarrow> None)
      | _ \<Rightarrow> None)"

subsection \<open>Notions used to state the properties\<close>

text \<open>The shape part of \<open>Sequential_call\<close>.\<close>

fun Sequential_shape :: "Sequential \<Rightarrow> nat list \<Rightarrow> error + nat list" where
  "Sequential_shape [] s = Inr s"
| "Sequential_shape (m # ms) s = bind (module_shape m s) (Sequential_shape ms)"

text \<open>
  The output-size arithmetic alone: the spatial size after one stage, and after each
  stage of a list of stages, for a square input of side \<open>n\<close>.
\<close>

definition Sequential_out_size :: "Sequential \<Rightarrow> nat \<Rightarrow> nat" where
  "Sequential_out_size layer n = fold out_size layer n"

fun stage_sizes :: "Sequential list \<Rightarrow> nat \<Rightarrow> nat list" where
  "stage_sizes [] n = []"
| "stage_sizes (layer # rest) n =
     Sequential_out_size layer n # stage_sizes rest (Sequential_out_size layer n)"

text \<open>Likewise the channel count after each stage, for an input with \<open>c\<close> channels.\<close>

fun stage_channels :: "Sequential list \<Rightarrow> nat \<Rightarrow> nat list" where
  "stage_channels [] c = []"
| "stage_channels (layer # rest) c =
     fold out_channels_of layer c # stage_channels rest (fold out_channels_of layer c)"

text \<open>The feature sizes the docstrings of the class and of \<open>forward\<close> announce.\<close>

definition documented_feature_sizes :: "nat list list" where
  "documented_feature_sizes = [[38, 38], [19, 19], [10, 10], [5, 5], [3, 3], [1, 1]]"

text \<open>The channel counts of a stage's first and last convolution.\<close>

fun conv_channels :: "module \<Rightarrow> (nat \<times> nat) option" where
  "conv_channels (Conv2d ic oc k p s) = Some (ic, oc)"
| "conv_channels ReLU = None"
| "conv_channels (MaxPool2d k s) = None"

definition first_conv_in_channels :: "Sequential \<Rightarrow> nat option" where
  "first_conv_in_channels layer =
     (case List.map_filter conv_channels layer of [] \<Rightarrow> None | c # _ \<Rightarrow> Some (fst c))"

definition final_conv_out_channels :: "Sequential \<Rightarrow> nat option" where
  "final_conv_out_channels layer =
     (case rev (List.map_filter conv_channels layer) of [] \<Rightarrow> None | c # _ \<Rightarrow> Some (snd c))"

text \<open>
  The loop of assertions at index \<open>idx\<close>: the reads it makes succeed when both
  configured lists reach \<open>idx\<close> and the size entry is a pair; the shape it then expects
  is \<open>(out_channels[idx], h, w)\<close>.
\<close>

definition readable :: "BasicModel \<Rightarrow> nat \<Rightarrow> bool" where
  "readable self idx \<longleftrightarrow>
     idx < length (out_channels self) \<and> idx < length (output_feature_shape self) \<and>
     length (output_feature_shape self ! idx) = 2"

definition expected_shape :: "BasicModel \<Rightarrow> nat \<Rightarrow> nat list" where
  "expected_shape self idx =
     [out_channels self ! idx,
      output_feature_shape self ! idx ! 0,
      output_feature_shape self ! idx ! 1]"

text \<open>
  The dimensions the assertions look at, \<open>feature.shape[1:]\<close> of each feature, and
  the outcome of a call up to the batch dimension and the payload: the error, or these
  dimensions of the returned features.
\<close>

definition checked_dims :: "'d tensor list \<Rightarrow> nat list list" where
  "checked_dims fs = map (\<lambda>f. drop 1 (shape f)) fs"

definition outcome :: "error + 'd tensor list \<Rightarrow> error + nat list list" where
  "outcome r = map_sum id checked_dims r"

text \<open>What \<open>__init__\<close> leaves in the object, field by field.\<close>

definition built :: "nat list \<Rightarrow> nat \<Rightarrow> nat list list \<Rightarrow> BasicModel \<Rightarrow> bool" where
  "built oc ic ofs self \<longleftrightarrow>
     6 \<le> length oc \<and> out_channels self = oc \<and> output_feature_shape self = ofs \<and>
     layer_1 self = [Conv2d ic 32 3 1 1, ReLU, MaxPool2d 2 2, Conv2d 32 64 3 1 1, ReLU,
                     MaxPool2d 2 2, Conv2d 64 64 3 1 1, ReLU, Conv2d 64 (oc ! 0) 3 1 2, ReLU] \<and>
     layer_2 self = [Conv2d (oc ! 0) 128 3 1 1, ReLU, Conv2d 128 (oc ! 1) 3 1 2, ReLU] \<and>
     layer_3 self = [Conv2d (oc ! 1) 256 3 1 1, ReLU, Conv2d 256 (oc ! 2) 3 1 2, ReLU] \<and>
     layer_4 self = [Conv2d (oc ! 2) 128 3 1 1, ReLU, Conv2d 128 (oc ! 3) 3 1 2, ReLU] \<and>
     layer_5 self = [Conv2d (oc ! 3) 128 3 1 1, ReLU, Conv2d 128 (oc ! 4) 3 1 2, ReLU] \<and>
     layer_6 self = [Conv2d (oc ! 4) 128 3 1 1, ReLU, Conv2d 128 (oc ! 5) 3 0 1, ReLU] \<and>
     layers self =
       [layer_1 self, layer_2 self, layer_3 self, layer_4 self, layer_5 self, layer_6 self]"

text \<open>
  The store \<open>h\<close> holds at \<open>self\<close> an instance of which the attributes refer to objects
  with the values of the fields of \<open>m\<close>.
\<close>

definition represents :: "'d store \<Rightarrow> addr \<Rightarrow> BasicModel \<Rightarrow> bool" where
  "represents h self m \<longleftrightarrow>
     (case lookup h self of
        Some (Instance d) \<Rightarrow>
          lookup h (out_channels_at d) = Some (IntList (out_channels m)) \<and>
          lookup h (output_feature_shape_at d) = Some (SizeList (output_feature_shape m)) \<and>
          lookup h (layer_1_at d) = Some (Module (layer_1 m)) \<and>
          lookup h (layer_2_at d) = Some (Module (layer_2 m)) \<and>
          lookup h (layer_3_at d) = Some (Module (layer_3 m)) \<and>
          lookup h (layer_4_at d) = Some (Module (layer_4 m)) \<and>
          lookup h (layer_5_at d) = Some (Module (layer_5 m)) \<and>
          lookup h (layer_6_at d) = Some (Module (layer_6 m)) \<and>
          (case lookup h (layers_at d) of
             Some (LayerList refs) \<Rightarrow>
               map (lookup h) refs = map (\<lambda>l. Some (Module l)) (layers m)
           | _ \<Rightarrow> False)
      | _ \<Rightarrow> False)"

text \<open>
  A concrete instance for the examples: six channel counts, an RGB image, and tensors
  without payload.
\<close>

definition no_data :: "module \<Rightarrow> unit tensor \<Rightarrow> unit" where
  "no_data m x = ()"

definition example_channels :: "nat list" where
  "example_channels = [128, 256, 128, 128, 64, 64]"

definition example_input :: "unit tensor" where
  "example_input = \<lparr>shape = [1, 3, 300, 300], dtype = Float32, device = Cpu, data = ()\<rparr>"

definition example_model :: "nat list list \<Rightarrow> BasicModel" where
  "example_model ofs = projr (BasicModel_init example_channels 3 ofs)"

text \<open>
  Configurations that do not fit the network: feature sizes that are all 1 by 1, and
  the documented sizes without the last entry.
\<close>

definition mismatched_feature_sizes :: "nat list list" where
  "mismatched_feature_sizes = [[1, 1], [1, 1], [1, 1], [1, 1], [1, 1], [1, 1]]"



definition triple_feature_sizes :: "nat list list" where
  "triple_feature_sizes = [[38, 38, 1], [19, 19], [10, 10], [5, 5], [3, 3], [1, 1]]"

definition unreadable_feature_sizes :: "nat list list" where
  "unreadable_feature_sizes = [[38, 38, 1], [19, 19], [10, 10], [5, 5], [3, 3], [2, 2]]"

definition four_channel_input :: "unit tensor" where
  "four_channel_input =
     \<lparr>shape = [1, 4, 300, 300], dtype = Float32, device = Cpu, data = ()\<rparr>"

text \<open>A payload-free tensor of the parameters' element type on their device.\<close>

definition float_tensor :: "nat list \<Rightarrow> unit tensor" where
  "float_tensor s = \<lparr>shape = s, dtype = Float32, device = Cpu, data = ()\<rparr>"

text \<open>The same image in a batch of eight, and the features computed for it.\<close>

definition batch_input :: "unit tensor" where
  "batch_input = \<lparr>shape = [8, 3, 300, 300], dtype = Float32, device = Cpu, data = ()\<rparr>"

definition batch_features :: "unit tensor list" where
  "batch_features =
     [float_tensor [8, 128, 38, 38], float_tensor [8, 256, 19, 19],
      float_tensor [8, 128, 10, 10], float_tensor [8, 128, 5, 5],
      float_tensor [8, 64, 3, 3], float_tensor [8, 64, 1, 1]]"

text \<open>The features the example model computes for the example input.\<close>

definition example_features :: "unit tensor list" where
  "example_features =
     [float_tensor [1, 128, 38, 38], float_tensor [1, 256, 19, 19],
      float_tensor [1, 128, 10, 10], float_tensor [1, 128, 5, 5],
      float_tensor [1, 64, 3, 3], float_tensor [1, 64, 1, 1]]"

text \<open>
  The example model laid out in a store: the two configuration lists, the six stages,
  the list \<open>self.layers\<close> and the instance, at address 9.
\<close>

definition example_store :: "nat list list \<Rightarrow> unit object list" where
  "example_store ofs =
     [IntList (out_channels (example_model ofs)),
      SizeList (output_feature_shape (example_model ofs)),
      Module (layer_1 (example_model ofs)), Module (layer_2 (example_model ofs)),
      Module (layer_3 (example_model ofs)), Module (layer_4 (example_model ofs)),
      Module (layer_5 (example_model ofs)), Module (layer_6 (example_model ofs)),
      LayerList [2, 3, 4, 5, 6, 7],
      Instance \<lparr>out_channels_at = 0, output_feature_shape_at = 1,
                layer_1_at = 2, layer_2_at = 3, layer_3_at = 4,
                layer_4_at = 5, layer_5_at = 6, layer_6_at = 7, layers_at = 8\<rparr>]"

definition example_self :: addr where
  "example_self = 9"

section \<open>Basic facts\<close>

text \<open>Sequencing of fallible steps, and quantifiers over the six stages.\<close>

lemma bind_simps [simp]: "bind (Inl e) f = Inl e" "bind (Inr v) f = f v"
  by (simp_all add: bind_def)

lemma bind_Inr_iff: "bind r f = Inr y \<longleftrightarrow> (\<exists>v. r = Inr v \<and> f v = Inr y)"
  by (cases r) simp_all

lemma bind_Inl_iff: "bind r f = Inl e \<longleftrightarrow> r = Inl e \<or> (\<exists>v. r = Inr v \<and> f v = Inl e)"
  by (cases r) simp_all

lemma all_less_6: "(\<forall>i<6. P i) \<longleftrightarrow> P 0 \<and> P 1 \<and> P 2 \<and> P 3 \<and> P 4 \<and> P (5::nat)"
proof -
  have "{..<6::nat} = {0, 1, 2, 3, 4, 5}" by auto
  then have "(\<forall>i<6. P i) \<longleftrightarrow> (\<forall>i\<in>{0, 1, 2, 3, 4, 5}. P i)"
    by (metis lessThan_iff)
  then show ?thesis by simp
qed

lemma all_less_5: "(\<forall>i<5. P i) \<longleftrightarrow> P 0 \<and> P 1 \<and> P 2 \<and> P 3 \<and> P (4::nat)"
proof -
  have "{..<5::nat} = {0, 1, 2, 3, 4}" by auto
  then have "(\<forall>i<5. P i) \<longleftrightarrow> (\<forall>i\<in>{0, 1, 2, 3, 4}. P i)"
    by (metis lessThan_iff)
  then show ?thesis by simp
qed

lemma length_6_obtain:
  assumes "length xs = 6"
  obtains a b c d e f where "xs = [a, b, c, d, e, f]"
  using assms by (auto simp: numeral_eq_Suc length_Suc_conv)

subsection \<open>Construction\<close>


lemma init_long: "6 \<le> length oc \<Longrightarrow> \<exists>self. BasicModel_init oc ic ofs = Inr self"
  by (auto simp: BasicModel_init_def getitem_def Let_def)

lemma init_Inr_built: "BasicModel_init oc ic ofs = Inr self \<Longrightarrow> built oc ic ofs self"
  unfolding BasicModel_init_def built_def
  by (auto simp: getitem_def Let_def CONV_PADDING_def CONV_KERNEL_SIZE_def
       MAX_POOL_KERNEL_SIZE_def MAX_POOL_STRIDE_def split: if_splits)

lemma built_layers_length: "built oc ic ofs self \<Longrightarrow> length (layers self) = 6"
  by (simp add: built_def)

lemma built_final_conv:
  "built oc ic ofs self \<Longrightarrow>
     \<forall>i<6. final_conv_out_channels (layers self ! i) = Some (oc ! i)"
  unfolding all_less_6
  by (simp add: built_def final_conv_out_channels_def List.map_filter_simps)

lemma built_first_conv:
  "built oc ic ofs self \<Longrightarrow>
     \<forall>i<5. first_conv_in_channels (layers self ! Suc i) = Some (oc ! i)"
  unfolding all_less_5
  by (simp add: built_def first_conv_in_channels_def List.map_filter_simps)

lemma built_stage_sizes:
  "built oc ic ofs self \<Longrightarrow> stage_sizes (layers self) 300 = [38, 19, 10, 5, 3, 1]"
  by (simp add: built_def Sequential_out_size_def)

lemma built_stage_channels:
  "built oc ic ofs self \<Longrightarrow>
     stage_channels (layers self) c = [oc ! 0, oc ! 1, oc ! 2, oc ! 3, oc ! 4, oc ! 5]"
  by (simp add: built_def)

subsection \<open>Modules and stages\<close>

text \<open>
  A stage keeps the rank and the batch dimension of its input, fails with
  \<open>RuntimeError\<close> only, and on a batched input computes channels and spatial sizes
  by folding the arithmetic of its modules.
\<close>

lemma module_shape_rank:
  "module_shape m s = Inr s' \<Longrightarrow> length s' = length s \<and> (length s = 4 \<longrightarrow> hd s' = hd s)"
  by (induction m s rule: module_shape.induct) (auto split: if_splits)

lemma module_shape_fails: "module_shape m s = Inl e \<Longrightarrow> e = RuntimeError"
  by (induction m s rule: module_shape.induct) (auto split: if_splits)

lemma module_shape_rank4:
  "module_shape m [n, c, h, w] = Inr s \<Longrightarrow>
     s = [n, out_channels_of m c, out_size m h, out_size m w]"
  by (cases m) (auto split: if_splits)

lemma module_shape_batch:
  "length s = 3 \<Longrightarrow>
     module_shape m (n # s) = map_sum id (\<lambda>t. n # tl t) (module_shape m (n' # s))"
  by (cases m) (auto simp: length_Suc_conv numeral_3_eq_3)

lemma Sequential_shape_fails: "Sequential_shape l s = Inl e \<Longrightarrow> e = RuntimeError"
  by (induction l arbitrary: s) (auto simp: bind_Inl_iff dest: module_shape_fails)

lemma Sequential_call_shape:
  "map_sum id shape (Sequential_call num l x) =
     (if \<forall>m\<in>set l. accepts m (dtype x) (device x)
      then Sequential_shape l (shape x) else Inl RuntimeError)"
proof (induction l arbitrary: x)
  case Nil
  show ?case by simp
next
  case (Cons m ms)
  show ?case
  proof (cases "accepts m (dtype x) (device x)")
    case False
    then show ?thesis by (simp add: module_call_def)
  next
    case True
    show ?thesis
    proof (cases "module_shape m (shape x)")
      case (Inl e)
      with module_shape_fails [OF Inl] True show ?thesis by (simp add: module_call_def)
    next
      case (Inr s)
      with True show ?thesis
        using Cons [of "\<lparr>shape = s, dtype = dtype x, device = device x, data = num m x\<rparr>"]
        by (simp add: module_call_def)
    qed
  qed
qed

lemma Sequential_call_types:
  "Sequential_call num l x = Inr y \<Longrightarrow> dtype y = dtype x \<and> device y = device x"
proof (induction l arbitrary: x)
  case Nil
  then show ?case by simp
next
  case (Cons m ms)
  from Cons.prems obtain z where z: "module_call num m x = Inr z"
    and rest: "Sequential_call num ms z = Inr y"
    by (auto simp: bind_Inr_iff)
  from z have "dtype z = dtype x \<and> device z = device x"
    by (auto simp: module_call_def bind_Inr_iff split: if_splits)
  with Cons.IH [OF rest] show ?case by simp
qed

lemma Sequential_call_Inr:
  assumes "Sequential_call num l x = Inr y"
  shows "Sequential_shape l (shape x) = Inr (shape y)"
    and "\<forall>m\<in>set l. accepts m (dtype x) (device x)"
  using assms Sequential_call_shape [of num l x] by (simp_all split: if_splits)

lemma Sequential_call_exists:
  assumes "Sequential_shape l (shape x) = Inr s"
    and "\<forall>m\<in>set l. accepts m (dtype x) (device x)"
  shows "\<exists>y. Sequential_call num l x = Inr y \<and> shape y = s \<and>
           dtype y = dtype x \<and> device y = device x"
proof (cases "Sequential_call num l x")
  case (Inl e)
  with assms Sequential_call_shape [of num l x] show ?thesis by simp
next
  case (Inr y)
  with assms Sequential_call_shape [of num l x] Sequential_call_types [OF Inr]
  show ?thesis by simp
qed

lemma Sequential_call_fails:
  "Sequential_call num l x = Inl e \<Longrightarrow> e = RuntimeError"
  using Sequential_call_shape [of num l x] Sequential_shape_fails [of l "shape x" e]
  by (simp split: if_splits)

lemma Sequential_shape_rank:
  "Sequential_shape l s = Inr s' \<Longrightarrow> length s' = length s \<and> (length s = 4 \<longrightarrow> hd s' = hd s)"
proof (induction l arbitrary: s)
  case Nil
  then show ?case by simp
next
  case (Cons m ms)
  then obtain t where t: "module_shape m s = Inr t" "Sequential_shape ms t = Inr s'"
    by (auto simp: bind_Inr_iff)
  from module_shape_rank [OF t(1)] Cons.IH [OF t(2)] show ?case by simp
qed

lemma Sequential_call_rank:
  assumes "Sequential_call num l x = Inr y"
  shows "length (shape y) = length (shape x) \<and> (length (shape x) = 4 \<longrightarrow> hd (shape y) = hd (shape x))"
proof -
  from assms have "Sequential_shape l (shape x) = Inr (shape y)"
    by (rule Sequential_call_Inr)
  then show ?thesis by (rule Sequential_shape_rank)
qed

lemma Sequential_shape_rank4:
  "Sequential_shape l [n, c, h, w] = Inr s \<Longrightarrow>
     s = [n, fold out_channels_of l c, fold out_size l h, fold out_size l w]"
proof (induction l arbitrary: c h w)
  case Nil
  then show ?case by simp
next
  case (Cons m ms)
  from Cons.prems obtain t where t: "module_shape m [n, c, h, w] = Inr t"
    and rest: "Sequential_shape ms t = Inr s"
    by (auto simp: bind_Inr_iff)
  from module_shape_rank4 [OF t] rest Cons.IH show ?case by simp
qed

lemma Sequential_call_rank4:
  assumes "Sequential_call num l x = Inr y" and "shape x = [n, c, h, w]"
  shows "shape y = [n, fold out_channels_of l c, Sequential_out_size l h, Sequential_out_size l w]"
proof -
  from Sequential_call_Inr(1) [OF assms(1)] assms(2)
  have "Sequential_shape l [n, c, h, w] = Inr (shape y)" by simp
  then show ?thesis unfolding Sequential_out_size_def by (rule Sequential_shape_rank4)
qed

lemma Sequential_shape_batch:
  "length s = 3 \<Longrightarrow>
     Sequential_shape l (n # s) = map_sum id (\<lambda>t. n # tl t) (Sequential_shape l (n' # s))"
proof (induction l arbitrary: s)
  case Nil
  then show ?case by simp
next
  case (Cons m ms)
  show ?case
  proof (cases "module_shape m (n' # s)")
    case (Inl e)
    with module_shape_batch [OF Cons.prems, of m n n'] show ?thesis by simp
  next
    case (Inr t)
    from module_shape_rank [OF Inr] Cons.prems have "length t = 4" "hd t = n'" by simp_all
    then obtain t' where t: "t = n' # t'" and t': "length t' = 3"
      by (cases t) auto
    from module_shape_batch [OF Cons.prems, of m n n'] Inr t
    have "module_shape m (n # s) = Inr (n # t')" by simp
    with Inr t Cons.IH [OF t'] show ?thesis by simp
  qed
qed

lemma Sequential_call_batch:
  assumes x: "shape x = n # s" and x': "shape x' = n' # s" and s: "length s = 3"
    and ty: "dtype x' = dtype x" "device x' = device x"
  shows "(\<exists>e. Sequential_call num l x = Inl e \<and> Sequential_call num' l x' = Inl e) \<or>
         (\<exists>a a' t. Sequential_call num l x = Inr a \<and> Sequential_call num' l x' = Inr a' \<and>
            shape a = n # t \<and> shape a' = n' # t \<and> length t = 3 \<and>
            dtype a' = dtype a \<and> device a' = device a)"
proof (cases "\<forall>m\<in>set l. accepts m (dtype x) (device x)")
  case False
  with Sequential_call_shape [of num l x] Sequential_call_shape [of num' l x'] ty
  have "Sequential_call num l x = Inl RuntimeError \<and> Sequential_call num' l x' = Inl RuntimeError"
    by (cases "Sequential_call num l x"; cases "Sequential_call num' l x'") simp_all
  then show ?thesis by (intro disjI1 exI [of _ RuntimeError])
next
  case acc: True
  show ?thesis
  proof (cases "Sequential_shape l (n' # s)")
    case (Inl e)
    with Sequential_shape_batch [OF s, of l n n'] have "Sequential_shape l (n # s) = Inl e"
      by simp
    with Inl acc Sequential_call_shape [of num l x] Sequential_call_shape [of num' l x'] x x' ty
    have "Sequential_call num l x = Inl e \<and> Sequential_call num' l x' = Inl e"
      by (cases "Sequential_call num l x"; cases "Sequential_call num' l x'") simp_all
    then show ?thesis by (intro disjI1 exI [of _ e])
  next
    case (Inr u)
    from Sequential_shape_rank [OF Inr] s have "length u = 4" "hd u = n'" by simp_all
    then obtain t where u: "u = n' # t" and t: "length t = 3" by (cases u) auto
    from Sequential_shape_batch [OF s, of l n n'] Inr u
    have "Sequential_shape l (n # s) = Inr (n # t)" by simp
    with x acc Sequential_call_exists [of l x "n # t" num]
    obtain a where a: "Sequential_call num l x = Inr a" "shape a = n # t"
      "dtype a = dtype x" "device a = device x" by auto
    from Inr u x' acc ty Sequential_call_exists [of l x' "n' # t" num']
    obtain a' where a': "Sequential_call num' l x' = Inr a'" "shape a' = n' # t"
      "dtype a' = dtype x'" "device a' = device x'" by auto
    from a a' t ty show ?thesis
      by (intro disjI2 exI [of _ a] exI [of _ a'] exI [of _ t]) simp
  qed
qed

subsection \<open>The loop over the layers\<close>

text \<open>
  The loop produces one feature per layer, each the result of its layer on the
  feature before.
\<close>

lemma run_layers_append:
  "run_layers num ls x (acc @ acc') = map_sum id ((@) acc) (run_layers num ls x acc')"
proof (induction ls arbitrary: x acc')
  case Nil
  show ?case by simp
next
  case (Cons l ls)
  show ?case
  proof (cases "Sequential_call num l x")
    case (Inl e)
    then show ?thesis by simp
  next
    case (Inr a)
    then show ?thesis using Cons [of a "acc' @ [a]"] by simp
  qed
qed

lemma run_layers_Cons:
  "run_layers num (l # ls) x [] = Inr fs \<longleftrightarrow>
     (\<exists>a ys. Sequential_call num l x = Inr a \<and> run_layers num ls a [] = Inr ys \<and> fs = a # ys)"
proof (cases "Sequential_call num l x")
  case (Inl e)
  then show ?thesis by simp
next
  case (Inr a)
  have "run_layers num ls a [a] = map_sum id ((@) [a]) (run_layers num ls a [])"
    using run_layers_append [of num ls a "[a]" "[]"] by simp
  with Inr show ?thesis by (cases "run_layers num ls a []") auto
qed

lemma run_layers_unfold:
  "run_layers num (l # ls) x [] =
     bind (Sequential_call num l x) (\<lambda>a. map_sum id ((#) a) (run_layers num ls a []))"
proof (cases "Sequential_call num l x")
  case (Inl e)
  then show ?thesis by simp
next
  case (Inr a)
  with run_layers_append [of num ls a "[a]" "[]"] show ?thesis
    by (simp add: comp_def) (metis append_Cons append_Nil)
qed

lemma run_layers_length: "run_layers num ls x [] = Inr fs \<Longrightarrow> length fs = length ls"
  by (induction ls arbitrary: x fs) (auto simp: run_layers_Cons simp del: run_layers.simps(2))

lemma run_layers_nth:
  "run_layers num ls x [] = Inr fs \<Longrightarrow> i < length ls \<Longrightarrow>
     Sequential_call num (ls ! i) (if i = 0 then x else fs ! (i - 1)) = Inr (fs ! i)"
proof (induction ls arbitrary: x fs i)
  case Nil
  then show ?case by simp
next
  case (Cons l ls)
  from Cons.prems(1) obtain a ys where a: "Sequential_call num l x = Inr a"
    and ys: "run_layers num ls a [] = Inr ys" and fs: "fs = a # ys"
    by (auto simp: run_layers_Cons simp del: run_layers.simps)
  show ?case
  proof (cases i)
    case 0
    with a fs show ?thesis by simp
  next
    case (Suc j)
    with Cons.prems(2) have j: "j < length ls" by simp
    from Cons.IH [OF ys j] Suc fs show ?thesis by (cases j) simp_all
  qed
qed

lemma run_layers_fails: "run_layers num ls x acc = Inl e \<Longrightarrow> e = RuntimeError"
  by (induction ls arbitrary: x acc) (auto simp: bind_Inl_iff dest: Sequential_call_fails)

lemma run_layers_rank:
  "run_layers num ls x [] = Inr fs \<Longrightarrow>
     \<forall>f\<in>set fs. length (shape f) = length (shape x) \<and>
                (length (shape x) = 4 \<longrightarrow> hd (shape f) = hd (shape x))"
proof (induction ls arbitrary: x fs)
  case Nil
  then show ?case by simp
next
  case (Cons l ls)
  from Cons.prems obtain a ys where a: "Sequential_call num l x = Inr a"
    and ys: "run_layers num ls a [] = Inr ys" and fs: "fs = a # ys"
    by (auto simp: run_layers_Cons simp del: run_layers.simps)
  from Sequential_call_rank [OF a] Cons.IH [OF ys] fs show ?case by simp
qed

lemma run_layers_sizes:
  "run_layers num ls x [] = Inr fs \<Longrightarrow> shape x = [n, c, h, w] \<Longrightarrow>
     map (drop 2 \<circ> shape) fs = map2 (\<lambda>a b. [a, b]) (stage_sizes ls h) (stage_sizes ls w)"
proof (induction ls arbitrary: x fs c h w)
  case Nil
  then show ?case by simp
next
  case (Cons l ls)
  from Cons.prems(1) obtain a ys where a: "Sequential_call num l x = Inr a"
    and ys: "run_layers num ls a [] = Inr ys" and fs: "fs = a # ys"
    by (auto simp: run_layers_Cons simp del: run_layers.simps)
  from Sequential_call_rank4 [OF a Cons.prems(2)]
  have sa: "shape a = [n, fold out_channels_of l c, Sequential_out_size l h, Sequential_out_size l w]" .
  from Cons.IH [OF ys sa] fs sa show ?case by simp
qed

lemma run_layers_channels:
  "run_layers num ls x [] = Inr fs \<Longrightarrow> shape x = [n, c, h, w] \<Longrightarrow>
     map (\<lambda>f. shape f ! 1) fs = stage_channels ls c \<and>
     map (\<lambda>f. shape f ! 0) fs = replicate (length ls) n"
proof (induction ls arbitrary: x fs c h w)
  case Nil
  then show ?case by simp
next
  case (Cons l ls)
  from Cons.prems(1) obtain a ys where a: "Sequential_call num l x = Inr a"
    and ys: "run_layers num ls a [] = Inr ys" and fs: "fs = a # ys"
    by (auto simp: run_layers_Cons simp del: run_layers.simps)
  from Sequential_call_rank4 [OF a Cons.prems(2)]
  have sa: "shape a = [n, fold out_channels_of l c, Sequential_out_size l h, Sequential_out_size l w]" .
  from Cons.IH [OF ys sa] fs sa show ?case by simp
qed

lemma run_layers_batch:
  assumes "shape x = n # s" and "shape x' = n' # s" and "length s = 3"
    and "dtype x' = dtype x" and "device x' = device x"
  shows "map_sum id (map (\<lambda>f. drop 1 (shape f))) (run_layers num ls x []) =
         map_sum id (map (\<lambda>f. drop 1 (shape f))) (run_layers num' ls x' [])"
  using assms
proof (induction ls arbitrary: x x' s)
  case Nil
  show ?case by simp
next
  case (Cons l ls)
  from Sequential_call_batch [OF Cons.prems, of num l num'] show ?case
  proof (elim disjE exE conjE)
    fix e
    assume "Sequential_call num l x = Inl e" "Sequential_call num' l x' = Inl e"
    then show ?thesis by (simp add: run_layers_unfold del: run_layers.simps)
  next
    fix a a' t
    assume a: "Sequential_call num l x = Inr a" and a': "Sequential_call num' l x' = Inr a'"
      and sa: "shape a = n # t" and sa': "shape a' = n' # t" and t: "length t = 3"
      and ty: "dtype a' = dtype a" "device a' = device a"
    from Cons.IH [OF sa sa' t ty]
    have "map_sum id (map (\<lambda>f. drop 1 (shape f))) (run_layers num ls a []) =
          map_sum id (map (\<lambda>f. drop 1 (shape f))) (run_layers num' ls a' [])" .
    with a a' sa sa' show ?thesis
      by (cases "run_layers num ls a []"; cases "run_layers num' ls a' []")
         (simp_all add: run_layers_unfold del: run_layers.simps)
  qed
qed

lemma built_feature_channels:
  assumes "built oc ic ofs self" and "shape x = [n, c, h, w]"
    and "run_layers num (layers self) x [] = Inr fs"
  shows "\<forall>i<6. shape (fs ! i) ! 1 = oc ! i"
proof -
  from run_layers_length [OF assms(3)] assms(1) have "length fs = 6"
    by (simp add: built_layers_length)
  then obtain a0 a1 a2 a3 a4 a5 where fs: "fs = [a0, a1, a2, a3, a4, a5]"
    by (rule length_6_obtain)
  from run_layers_channels [OF assms(3) assms(2)] built_stage_channels [OF assms(1), of c]
  have "map (\<lambda>f. shape f ! 1) fs = [oc ! 0, oc ! 1, oc ! 2, oc ! 3, oc ! 4, oc ! 5]"
    by simp
  with fs show ?thesis unfolding all_less_6 by simp
qed

lemma built_stage_accepts:
  assumes "built oc ic ofs self" and "t = parameter_dtype" and "d = parameter_device"
  shows "\<forall>l\<in>set (layers self). \<forall>m\<in>set l. accepts m t d"
  using assms by (simp add: built_def)

lemma built_run_standard:
  assumes b: "built oc ic ofs self" and pos: "\<forall>i<6. 0 < oc ! i" and ic: "0 < ic"
    and x: "shape x = [n, ic, 300, 300]"
    and ty: "dtype x = parameter_dtype" "device x = parameter_device"
  shows "\<exists>fs. run_layers num (layers self) x [] = Inr fs \<and>
           map shape fs = [[n, oc ! 0, 38, 38], [n, oc ! 1, 19, 19], [n, oc ! 2, 10, 10],
                           [n, oc ! 3, 5, 5], [n, oc ! 4, 3, 3], [n, oc ! 5, 1, 1]]"
proof -
  from pos have p: "0 < oc ! 0" "0 < oc ! 1" "0 < oc ! 2" "0 < oc ! 3" "0 < oc ! 4" "0 < oc ! 5"
    unfolding all_less_6 by simp_all
  from b have ls: "layers self =
      [layer_1 self, layer_2 self, layer_3 self, layer_4 self, layer_5 self, layer_6 self]"
    by (simp add: built_def)
  from built_stage_accepts [OF b refl refl] ls
  have acc: "\<forall>m\<in>set (layer_1 self). accepts m parameter_dtype parameter_device"
    "\<forall>m\<in>set (layer_2 self). accepts m parameter_dtype parameter_device"
    "\<forall>m\<in>set (layer_3 self). accepts m parameter_dtype parameter_device"
    "\<forall>m\<in>set (layer_4 self). accepts m parameter_dtype parameter_device"
    "\<forall>m\<in>set (layer_5 self). accepts m parameter_dtype parameter_device"
    "\<forall>m\<in>set (layer_6 self). accepts m parameter_dtype parameter_device"
    by simp_all
  have "Sequential_shape (layer_1 self) (shape x) = Inr [n, oc ! 0, 38, 38]"
    using b p(1) ic x by (simp add: built_def)
  from Sequential_call_exists [OF this, of num] acc(1) ty
  obtain a1 where a1: "Sequential_call num (layer_1 self) x = Inr a1"
    and s1: "shape a1 = [n, oc ! 0, 38, 38]"
    and t1: "dtype a1 = parameter_dtype" "device a1 = parameter_device"
    by auto
  have "Sequential_shape (layer_2 self) (shape a1) = Inr [n, oc ! 1, 19, 19]"
    using b p(1) p(2) s1 by (simp add: built_def)
  from Sequential_call_exists [OF this, of num] acc(2) t1
  obtain a2 where a2: "Sequential_call num (layer_2 self) a1 = Inr a2"
    and s2: "shape a2 = [n, oc ! 1, 19, 19]"
    and t2: "dtype a2 = parameter_dtype" "device a2 = parameter_device"
    by auto
  have "Sequential_shape (layer_3 self) (shape a2) = Inr [n, oc ! 2, 10, 10]"
    using b p(2) p(3) s2 by (simp add: built_def)
  from Sequential_call_exists [OF this, of num] acc(3) t2
  obtain a3 where a3: "Sequential_call num (layer_3 self) a2 = Inr a3"
    and s3: "shape a3 = [n, oc ! 2, 10, 10]"
    and t3: "dtype a3 = parameter_dtype" "device a3 = parameter_device"
    by auto
  have "Sequential_shape (layer_4 self) (shape a3) = Inr [n, oc ! 3, 5, 5]"
    using b p(3) p(4) s3 by (simp add: built_def)
  from Sequential_call_exists [OF this, of num] acc(4) t3
  obtain a4 where a4: "Sequential_call num (layer_4 self) a3 = Inr a4"
    and s4: "shape a4 = [n, oc ! 3, 5, 5]"
    and t4: "dtype a4 = parameter_dtype" "device a4 = parameter_device"
    by auto
  have "Sequential_shape (layer_5 self) (shape a4) = Inr [n, oc ! 4, 3, 3]"
    using b p(4) p(5) s4 by (simp add: built_def)
  from Sequential_call_exists [OF this, of num] acc(5) t4
  obtain a5 where a5: "Sequential_call num (layer_5 self) a4 = Inr a5"
    and s5: "shape a5 = [n, oc ! 4, 3, 3]"
    and t5: "dtype a5 = parameter_dtype" "device a5 = parameter_device"
    by auto
  have "Sequential_shape (layer_6 self) (shape a5) = Inr [n, oc ! 5, 1, 1]"
    using b p(5) p(6) s5 by (simp add: built_def)
  from Sequential_call_exists [OF this, of num] acc(6) t5
  obtain a6 where a6: "Sequential_call num (layer_6 self) a5 = Inr a6"
    and s6: "shape a6 = [n, oc ! 5, 1, 1]"
    by auto
  have "run_layers num (layers self) x [] = Inr [a1, a2, a3, a4, a5, a6]"
    by (simp add: ls a1 a2 a3 a4 a5 a6)
  with s1 s2 s3 s4 s5 s6 show ?thesis by simp
qed

subsection \<open>The loop of assertions\<close>

text \<open>
  One step of the loop, when it passes, and how it fails: at the first index that is
  not readable or whose feature has another shape than expected.
\<close>

lemma check_shapes_step:
  "check_shapes self idx (f # fs) =
     (if idx < length (out_channels self)
      then if idx < length (output_feature_shape self)
        then if length (output_feature_shape self ! idx) = 2
          then if drop 1 (shape f) = expected_shape self idx
            then check_shapes self (Suc idx) fs
            else Inl (AssertionError (ShapeAssertion (expected_shape self idx) (drop 1 (shape f)) idx))
          else Inl ValueError
        else Inl IndexError
      else Inl IndexError)"
proof -
  have pair: "unpack_pair t = (if length t = 2 then Inr (t ! 0, t ! 1) else Inl ValueError)"
    for t :: "nat list"
    by (auto simp: unpack_pair_def length_Suc_conv numeral_2_eq_2 split: list.splits)
  show ?thesis
    by (simp add: getitem_def pair expected_shape_def Let_def)
qed

lemma check_shapes_Inr_iff:
  "check_shapes self idx fs = Inr u \<longleftrightarrow>
     (\<forall>j<length fs. readable self (idx + j) \<and>
        drop 1 (shape (fs ! j)) = expected_shape self (idx + j))"
proof (induction fs arbitrary: idx)
  case Nil
  show ?case by simp
next
  case (Cons f fs)
  have "(\<forall>j<length (f # fs). readable self (idx + j) \<and>
           drop 1 (shape ((f # fs) ! j)) = expected_shape self (idx + j)) \<longleftrightarrow>
        (readable self idx \<and> drop 1 (shape f) = expected_shape self idx) \<and>
        (\<forall>j<length fs. readable self (Suc idx + j) \<and>
           drop 1 (shape (fs ! j)) = expected_shape self (Suc idx + j))"
    by (auto simp: less_Suc_eq_0_disj)
  with Cons.IH [of "Suc idx"] show ?case
    by (simp add: check_shapes_step readable_def del: check_shapes.simps)
qed


lemma check_shapes_Inl:
  assumes "check_shapes self idx fs = Inl e"
  shows "\<exists>j<length fs.
           (\<forall>i<j. readable self (idx + i) \<and> drop 1 (shape (fs ! i)) = expected_shape self (idx + i)) \<and>
           (if readable self (idx + j)
            then drop 1 (shape (fs ! j)) \<noteq> expected_shape self (idx + j) \<and>
                 e = AssertionError (ShapeAssertion (expected_shape self (idx + j))
                                       (drop 1 (shape (fs ! j))) (idx + j))
            else if idx + j < length (out_channels self) \<and> idx + j < length (output_feature_shape self)
                 then e = ValueError else e = IndexError)"
  using assms
proof (induction fs arbitrary: idx)
  case Nil
  then show ?case by simp
next
  case (Cons f fs)
  show ?case
  proof (cases "readable self idx \<and> drop 1 (shape f) = expected_shape self idx")
    case False
    with Cons.prems have "(if readable self idx
            then drop 1 (shape f) \<noteq> expected_shape self idx \<and>
                 e = AssertionError (ShapeAssertion (expected_shape self idx) (drop 1 (shape f)) idx)
            else if idx < length (out_channels self) \<and> idx < length (output_feature_shape self)
                 then e = ValueError else e = IndexError)"
      by (auto simp: check_shapes_step readable_def simp del: check_shapes.simps split: if_splits)
    then show ?thesis by (intro exI [of _ 0]) (auto split: if_splits)
  next
    case True
    with Cons.prems have "check_shapes self (Suc idx) fs = Inl e"
      by (simp add: check_shapes_step readable_def del: check_shapes.simps)
    from Cons.IH [OF this] obtain j where j: "j < length fs"
      and before: "\<forall>i<j. readable self (Suc idx + i) \<and> drop 1 (shape (fs ! i)) = expected_shape self (Suc idx + i)"
      and at: "(if readable self (Suc idx + j)
            then drop 1 (shape (fs ! j)) \<noteq> expected_shape self (Suc idx + j) \<and>
                 e = AssertionError (ShapeAssertion (expected_shape self (Suc idx + j))
                                       (drop 1 (shape (fs ! j))) (Suc idx + j))
            else if Suc idx + j < length (out_channels self) \<and> Suc idx + j < length (output_feature_shape self)
                 then e = ValueError else e = IndexError)"
      by blast
    from before True have "\<forall>i<Suc j. readable self (idx + i) \<and>
        drop 1 (shape ((f # fs) ! i)) = expected_shape self (idx + i)"
      by (auto simp: less_Suc_eq_0_disj)
    with j at show ?thesis by (intro exI [of _ "Suc j"]) (auto split: if_splits)
  qed
qed

lemma check_shapes_Inl_0:
  assumes "check_shapes self 0 fs = Inl e"
  obtains j where "j < length fs"
    and "\<forall>i<j. readable self i \<and> drop 1 (shape (fs ! i)) = expected_shape self i"
    and "readable self j \<Longrightarrow> drop 1 (shape (fs ! j)) \<noteq> expected_shape self j"
    and "readable self j \<Longrightarrow>
           e = AssertionError (ShapeAssertion (expected_shape self j) (drop 1 (shape (fs ! j))) j)"
    and "\<not> readable self j \<Longrightarrow>
           j < length (out_channels self) \<and> j < length (output_feature_shape self) \<Longrightarrow>
           e = ValueError"
    and "\<not> readable self j \<Longrightarrow>
           \<not> (j < length (out_channels self) \<and> j < length (output_feature_shape self)) \<Longrightarrow>
           e = IndexError"
proof -
  from check_shapes_Inl [OF assms] obtain j where j: "j < length fs"
    and before: "\<forall>i<j. readable self (0 + i) \<and>
        drop 1 (shape (fs ! i)) = expected_shape self (0 + i)"
    and at: "if readable self (0 + j)
            then drop 1 (shape (fs ! j)) \<noteq> expected_shape self (0 + j) \<and>
                 e = AssertionError (ShapeAssertion (expected_shape self (0 + j))
                                       (drop 1 (shape (fs ! j))) (0 + j))
            else if 0 + j < length (out_channels self) \<and>
                    0 + j < length (output_feature_shape self)
                 then e = ValueError else e = IndexError"
    by (elim exE conjE)
  have z: "0 + j = j" by simp
  from before have before': "\<forall>i<j. readable self i \<and>
      drop 1 (shape (fs ! i)) = expected_shape self i"
    by simp
  from at [unfolded z] show thesis
    using that [OF j before'] by (auto split: if_splits)
qed

lemma check_shapes_cong:
  "map (\<lambda>f. drop 1 (shape f)) fs = map (\<lambda>f. drop 1 (shape f)) fs' \<Longrightarrow>
     check_shapes self idx fs = check_shapes self idx fs'"
proof (induction fs arbitrary: fs' idx)
  case Nil
  then show ?case by simp
next
  case (Cons f fs)
  from Cons.prems obtain f' rest where fs': "fs' = f' # rest"
    and hd: "drop 1 (shape f) = drop 1 (shape f')"
    and tl: "map (\<lambda>f. drop 1 (shape f)) fs = map (\<lambda>f. drop 1 (shape f)) rest"
    by (cases fs') auto
  from Cons.IH [OF tl, of "Suc idx"] hd fs' show ?case
    by (simp add: check_shapes_step del: check_shapes.simps)
qed

lemma check_shapes_documented:
  assumes shapes: "map shape [a0, a1, a2, a3, a4, a5] =
        [[n, output_channels ! 0, 38, 38], [n, output_channels ! 1, 19, 19],
         [n, output_channels ! 2, 10, 10], [n, output_channels ! 3, 5, 5],
         [n, output_channels ! 4, 3, 3], [n, output_channels ! 5, 1, 1]]"
   and "6 \<le> length output_channels"
   and fields: "out_channels self = output_channels"
    "output_feature_shape self = documented_feature_sizes"
  shows "check_shapes self 0 [a0, a1, a2, a3, a4, a5] = Inr ()"
proof -
  from assms(2) have l: "0 < length output_channels" "1 < length output_channels"
    "2 < length output_channels" "3 < length output_channels" "4 < length output_channels"
    "5 < length output_channels"
    by linarith+
  have r: "\<forall>j<6. readable self j"
    using l unfolding all_less_6
    by (simp add: readable_def fields documented_feature_sizes_def)
  have e: "\<forall>j<6. drop 1 (shape ([a0, a1, a2, a3, a4, a5] ! j)) = expected_shape self j"
    using shapes unfolding all_less_6
    by (simp add: expected_shape_def fields documented_feature_sizes_def)
  from r e show ?thesis by (simp add: check_shapes_Inr_iff del: check_shapes.simps)
qed

lemma built_check_Inl:
  assumes b: "built oc ic ofs self" and len: "length fs = 6"
    and chk: "check_shapes self 0 fs = Inl e"
  shows "(e = IndexError \<and> length ofs < 6) \<or>
         (e = ValueError \<and> (\<exists>idx<6. idx < length ofs \<and> length (ofs ! idx) \<noteq> 2)) \<or>
         (\<exists>idx<6. readable self idx \<and> drop 1 (shape (fs ! idx)) \<noteq> expected_shape self idx \<and>
            (\<forall>i<idx. readable self i \<and> drop 1 (shape (fs ! i)) = expected_shape self i) \<and>
            e = AssertionError (ShapeAssertion (expected_shape self idx)
                                  (drop 1 (shape (fs ! idx))) idx))"
proof -
  from check_shapes_Inl_0 [OF chk] obtain j where j': "j < length fs"
    and before: "\<forall>i<j. readable self i \<and> drop 1 (shape (fs ! i)) = expected_shape self i"
    and at1: "readable self j \<Longrightarrow> drop 1 (shape (fs ! j)) \<noteq> expected_shape self j"
    and at2: "readable self j \<Longrightarrow>
           e = AssertionError (ShapeAssertion (expected_shape self j) (drop 1 (shape (fs ! j))) j)"
    and at3: "\<not> readable self j \<Longrightarrow>
           j < length (out_channels self) \<and> j < length (output_feature_shape self) \<Longrightarrow>
           e = ValueError"
    and at4: "\<not> readable self j \<Longrightarrow>
           \<not> (j < length (out_channels self) \<and> j < length (output_feature_shape self)) \<Longrightarrow>
           e = IndexError"
    by blast
  from j' len have j: "j < 6" by simp
  from b have fields: "out_channels self = oc" "output_feature_shape self = ofs" "6 \<le> length oc"
    by (simp_all add: built_def)
  show ?thesis
  proof (cases "readable self j")
    case True
    with at1 at2 j before show ?thesis by auto
  next
    case False
    show ?thesis
    proof (cases "j < length ofs")
      case True
      with False j fields have "length (ofs ! j) \<noteq> 2" by (simp add: readable_def)
      moreover from at3 [OF False] True j fields have "e = ValueError" by simp
      ultimately show ?thesis using j True by auto
    next
      case inner: False
      with at4 [OF False] have "e = IndexError" by (simp add: fields)
      with inner j show ?thesis by simp
    qed
  qed
qed

subsection \<open>The forward pass\<close>

text \<open>When \<open>forward\<close> returns and when it raises, in terms of its two loops.\<close>

lemma forward_Inr_iff:
  "fst (forward num self x) = Inr fs \<longleftrightarrow>
     run_layers num (layers self) x [] = Inr fs \<and> check_shapes self 0 fs = Inr () \<and>
     length fs = length (output_feature_shape self)"
  by (auto simp: forward_def bind_Inr_iff split: if_splits)

lemma forward_Inl_iff:
  "fst (forward num self x) = Inl e \<longleftrightarrow>
     run_layers num (layers self) x [] = Inl e \<or>
     (\<exists>fs. run_layers num (layers self) x [] = Inr fs \<and>
        (check_shapes self 0 fs = Inl e \<or>
         check_shapes self 0 fs = Inr () \<and> length fs \<noteq> length (output_feature_shape self) \<and>
         e = AssertionError (LengthAssertion (length (output_feature_shape self)) (length fs))))"
  by (auto simp: forward_def bind_Inl_iff split: if_splits)

lemma forward_batch:
  assumes "fst (forward num self x) = Inr fs" and "f \<in> set fs"
  shows "length (shape f) = 4 \<and> length (shape x) = 4 \<and> shape f ! 0 = shape x ! 0"
proof -
  from assms(1) have run: "run_layers num (layers self) x [] = Inr fs"
    and chk: "check_shapes self 0 fs = Inr ()"
    by (simp_all add: forward_Inr_iff)
  from assms(2) obtain j where j: "j < length fs" and f: "f = fs ! j"
    by (auto simp: in_set_conv_nth)
  from chk j f have "drop 1 (shape f) = expected_shape self j"
    by (simp add: check_shapes_Inr_iff)
  then have "length (drop 1 (shape f)) = 3" by (simp add: expected_shape_def)
  then have four: "length (shape f) = 4" by simp
  from run_layers_rank [OF run] assms(2)
  have same: "length (shape f) = length (shape x)"
    and hd: "length (shape x) = 4 \<longrightarrow> hd (shape f) = hd (shape x)"
    by simp_all
  from four same have x4: "length (shape x) = 4" by simp
  with hd have "hd (shape f) = hd (shape x)" by simp
  moreover from four have "shape f \<noteq> []" by auto
  moreover from x4 have "shape x \<noteq> []" by auto
  ultimately have "shape f ! 0 = shape x ! 0" by (simp add: hd_conv_nth)
  with four x4 show ?thesis by simp
qed

lemma forward_batch_independent:
  assumes "shape x = n # s" and "shape x' = n' # s" and "length s = 3"
    and "dtype x' = dtype x" and "device x' = device x"
  shows "map_sum id (map (\<lambda>f. drop 1 (shape f))) (fst (forward num self x)) =
         map_sum id (map (\<lambda>f. drop 1 (shape f))) (fst (forward num' self x'))"
proof (cases "run_layers num (layers self) x []")
  case (Inl e)
  with run_layers_batch [OF assms, of num "layers self" num']
  have "run_layers num' (layers self) x' [] = Inl e"
    by (cases "run_layers num' (layers self) x' []") simp_all
  with Inl show ?thesis by (simp add: forward_def)
next
  case (Inr fs)
  with run_layers_batch [OF assms, of num "layers self" num']
  obtain fs' where fs': "run_layers num' (layers self) x' [] = Inr fs'"
    and eq: "map (\<lambda>f. drop 1 (shape f)) fs = map (\<lambda>f. drop 1 (shape f)) fs'"
    by (cases "run_layers num' (layers self) x' []") simp_all
  from eq have "length (map (\<lambda>f. drop 1 (shape f)) fs) = length (map (\<lambda>f. drop 1 (shape f)) fs')"
    by simp
  then have len: "length fs = length fs'" by simp
  from check_shapes_cong [OF eq]
  have chk: "check_shapes self 0 fs = check_shapes self 0 fs'" .
  from eq show ?thesis
    by (cases "check_shapes self 0 fs'") (simp_all add: forward_def Inr fs' chk len)
qed

lemma built_forward_mismatch:
  assumes b: "built oc ic ofs self"
    and run: "run_layers num (layers self) x [] = Inr fs"
    and idx: "idx < 6"
    and mis: "drop 1 (shape (fs ! idx)) \<noteq> expected_shape self idx"
  shows "\<exists>e. fst (forward num self x) = Inl e"
    and "\<forall>j\<le>idx. readable self j \<Longrightarrow>
           \<exists>j\<le>idx. drop 1 (shape (fs ! j)) \<noteq> expected_shape self j \<and>
             fst (forward num self x) =
               Inl (AssertionError (ShapeAssertion (expected_shape self j)
                                      (drop 1 (shape (fs ! j))) j))"
proof -
  from run_layers_length [OF run] b have len: "length fs = 6"
    by (simp add: built_layers_length)
  have nocheck: "check_shapes self 0 fs \<noteq> Inr ()"
  proof
    assume "check_shapes self 0 fs = Inr ()"
    with idx len have "drop 1 (shape (fs ! idx)) = expected_shape self idx"
      by (simp add: check_shapes_Inr_iff)
    with mis show False by contradiction
  qed
  then obtain e where chk: "check_shapes self 0 fs = Inl e"
    by (cases "check_shapes self 0 fs") auto
  with run have fwd: "fst (forward num self x) = Inl e"
    by (simp add: forward_Inl_iff)
  then show "\<exists>e. fst (forward num self x) = Inl e" by (rule exI)
  show "\<exists>j\<le>idx. drop 1 (shape (fs ! j)) \<noteq> expected_shape self j \<and>
             fst (forward num self x) =
               Inl (AssertionError (ShapeAssertion (expected_shape self j)
                                      (drop 1 (shape (fs ! j))) j))"
    if r: "\<forall>j\<le>idx. readable self j"
  proof -
    from check_shapes_Inl_0 [OF chk] obtain j where j: "j < length fs"
      and before: "\<forall>i<j. readable self i \<and> drop 1 (shape (fs ! i)) = expected_shape self i"
      and at1: "readable self j \<Longrightarrow> drop 1 (shape (fs ! j)) \<noteq> expected_shape self j"
      and at2: "readable self j \<Longrightarrow>
           e = AssertionError (ShapeAssertion (expected_shape self j) (drop 1 (shape (fs ! j))) j)"
      and at3: "\<not> readable self j \<Longrightarrow>
           j < length (out_channels self) \<and> j < length (output_feature_shape self) \<Longrightarrow>
           e = ValueError"
      and at4: "\<not> readable self j \<Longrightarrow>
           \<not> (j < length (out_channels self) \<and> j < length (output_feature_shape self)) \<Longrightarrow>
           e = IndexError"
      by blast
    have "j \<le> idx"
    proof (rule ccontr)
      assume "\<not> j \<le> idx"
      then have "idx < j" by simp
      with before mis show False by simp
    qed
    with r have rj: "readable self j" by simp
    from at2 [OF rj] fwd have "fst (forward num self x) =
        Inl (AssertionError (ShapeAssertion (expected_shape self j) (drop 1 (shape (fs ! j))) j))"
      by simp
    with at1 [OF rj] \<open>j \<le> idx\<close> show ?thesis by (intro exI [of _ j] conjI)
  qed
qed



subsection \<open>The store\<close>

text \<open>
  Reading after a write, the two loops on the store against the two loops on values,
  and the whole method: on a store that represents \<open>m\<close>, it computes what \<open>forward\<close>
  computes on \<open>m\<close>, and the store after the call is the store before it with one more
  object, the list of features.
\<close>

lemma lookup_Some_less: "lookup h a = Some obj \<Longrightarrow> a < length h"
  by (simp add: lookup_def split: if_splits)

lemma lookup_append: "lookup h a = Some obj \<Longrightarrow> lookup (h @ h') a = Some obj"
  by (auto simp: lookup_def nth_append split: if_splits)

lemma lookup_update:
  "lookup (h[a := obj]) b = (if b = a \<and> a < length h then Some obj else lookup h b)"
  by (auto simp: lookup_def)

lemma check_shapes_assert_at:
  "check_shapes m idx (f # fs) =
     bind (assert_at (out_channels m) (output_feature_shape m) idx f)
       (\<lambda>_. check_shapes m (Suc idx) fs)"
  by (simp add: assert_at_def bind_def Let_def split: sum.splits prod.splits)

lemma layer_loop_run:
  assumes "lookup h ls = Some (LayerList refs)"
    and "map (lookup h) refs = map (\<lambda>l. Some (Module l)) lays"
    and "lookup h out = Some (TensorList acc)"
    and "i \<le> length refs"
  shows "\<exists>r fs. layer_loop num ls i activation out h = Some (r, h[out := TensorList fs]) \<and>
           (case run_layers num (drop i lays) activation acc of
              Inl e \<Rightarrow> r = Inl e
            | Inr gs \<Rightarrow> r = Inr () \<and> fs = gs)"
  using assms
proof (induction "length refs - i" arbitrary: i activation acc h)
  case 0
  from 0(3) have len: "length lays = length refs"
    by (metis length_map)
  from 0(1) 0(5) have i: "i = length refs" by simp
  from 0(4) have "h[out := TensorList acc] = h"
    by (simp add: lookup_def list_update_same_conv split: if_splits)
  with 0(2) i len show ?case
    by (subst layer_loop.simps) (auto intro!: exI [of _ acc])
next
  case (Suc k)
  from Suc(4) have len: "length lays = length refs"
    by (metis length_map)
  from Suc(2) have i: "i < length refs" by simp
  with Suc(4) len have mod: "lookup h (refs ! i) = Some (Module (lays ! i))"
    by (metis nth_map)
  from i len have drop: "drop i lays = lays ! i # drop (Suc i) lays"
    by (simp add: Cons_nth_drop_Suc)
  show ?case
  proof (cases "Sequential_call num (lays ! i) activation")
    case (Inl e)
    from Suc(5) have "h[out := TensorList acc] = h"
      by (simp add: lookup_def list_update_same_conv split: if_splits)
    with Inl Suc(3) i mod drop show ?thesis
      by (subst layer_loop.simps) (auto intro!: exI [of _ acc])
  next
    case (Inr a)
    let ?h' = "h[out := TensorList (acc @ [a])]"
    from Suc(5) have app: "list_append out a h = Some ?h'"
      by (simp add: list_append_def)
    from Suc(3) Suc(5) have ne: "ls \<noteq> out" by auto
    with Suc(3) have ls': "lookup ?h' ls = Some (LayerList refs)"
      by (simp add: lookup_update)
    have mods': "map (lookup ?h') refs = map (\<lambda>l. Some (Module l)) lays"
    proof (rule nth_equalityI)
      show "length (map (lookup ?h') refs) = length (map (\<lambda>l. Some (Module l)) lays)"
        using len by simp
    next
      fix j assume "j < length (map (lookup ?h') refs)"
      then have j: "j < length refs" by simp
      with Suc(4) len have "lookup h (refs ! j) = Some (Module (lays ! j))"
        by (metis nth_map)
      with Suc(5) have "lookup ?h' (refs ! j) = Some (Module (lays ! j))"
        by (auto simp: lookup_update)
      with j len show "map (lookup ?h') refs ! j = map (\<lambda>l. Some (Module l)) lays ! j"
        by simp
    qed
    from Suc(5) have out': "lookup ?h' out = Some (TensorList (acc @ [a]))"
      by (simp add: lookup_update lookup_Some_less)
    from Suc(2) have k: "k = length refs - Suc i" by simp
    from i have i': "Suc i \<le> length refs" by simp
    from Suc(1) [OF k ls' mods' out' i', of a] obtain r fs
      where loop: "layer_loop num ls (Suc i) a out ?h' = Some (r, ?h'[out := TensorList fs])"
        and res: "case run_layers num (drop (Suc i) lays) a (acc @ [a]) of
              Inl e \<Rightarrow> r = Inl e
            | Inr gs \<Rightarrow> r = Inr () \<and> fs = gs"
      by (elim exE conjE)
    have "layer_loop num ls i activation out h = Some (r, h[out := TensorList fs])"
      using Suc(3) i mod Inr app loop
      by (subst layer_loop.simps) simp
    with res Inr drop show ?thesis by (auto intro!: exI [of _ fs])
  qed
qed


lemma assert_loop_check:
  assumes "lookup h out = Some (TensorList fs)"
    and "attribute h self out_channels_at = Some (IntList (out_channels m))"
    and "attribute h self output_feature_shape_at = Some (SizeList (output_feature_shape m))"
    and "idx \<le> length fs"
  shows "assert_loop self out idx h = Some (check_shapes m idx (drop idx fs))"
  using assms
proof (induction "length fs - idx" arbitrary: idx)
  case 0
  then show ?case by simp
next
  case (Suc k)
  from Suc(2) have idx: "idx < length fs" by simp
  then have drop: "drop idx fs = fs ! idx # drop (Suc idx) fs"
    by (simp add: Cons_nth_drop_Suc)
  from Suc(2) have k: "k = length fs - Suc idx" by simp
  from idx have "Suc idx \<le> length fs" by simp
  from Suc(1) [OF k Suc(3) Suc(4) Suc(5) this]
  have rest: "assert_loop self out (Suc idx) h = Some (check_shapes m (Suc idx) (drop (Suc idx) fs))" .
  show ?case
    using Suc(3) Suc(4) Suc(5) idx rest
    by (cases "assert_at (out_channels m) (output_feature_shape m) idx (fs ! idx)")
       (simp_all add: drop check_shapes_assert_at bind_def del: check_shapes.simps)
qed

lemma represents_new:
  assumes "represents h self m"
  shows "represents (h @ [obj]) self m"
proof -
  from assms obtain d where d: "lookup h self = Some (Instance d)"
    by (auto simp: represents_def split: option.splits object.splits)
  with assms obtain refs where refs: "lookup h (layers_at d) = Some (LayerList refs)"
    and mods: "map (lookup h) refs = map (\<lambda>l. Some (Module l)) (layers m)"
    by (auto simp: represents_def split: option.splits object.splits)
  have "map (lookup (h @ [obj])) refs = map (\<lambda>l. Some (Module l)) (layers m)"
  proof (rule nth_equalityI)
    show "length (map (lookup (h @ [obj])) refs) = length (map (\<lambda>l. Some (Module l)) (layers m))"
      using mods by (metis length_map)
  next
    fix j assume "j < length (map (lookup (h @ [obj])) refs)"
    then have j: "j < length refs" by simp
    moreover from mods have len: "length (layers m) = length refs" by (metis length_map)
    ultimately have "lookup h (refs ! j) = Some (Module (layers m ! j))"
      using mods by (metis nth_map)
    then have "lookup (h @ [obj]) (refs ! j) = Some (Module (layers m ! j))"
      by (rule lookup_append)
    with j len show "map (lookup (h @ [obj])) refs ! j = map (\<lambda>l. Some (Module l)) (layers m) ! j"
      by simp
  qed
  with assms d refs show ?thesis
    by (simp add: represents_def lookup_append)
qed

lemma forward_store_forward:
  assumes "represents h self m"
  shows "\<exists>fs. forward_store num self x h = Some (fst (forward num m x), h @ [TensorList fs])"
proof -
  let ?out = "length h"
  let ?h0 = "h @ [TensorList []]"
  have rep0: "represents ?h0 self m"
    using assms by (rule represents_new)
  then obtain d where d: "lookup ?h0 self = Some (Instance d)"
    by (auto simp: represents_def split: option.splits object.splits)
  with rep0 obtain refs where refs: "lookup ?h0 (layers_at d) = Some (LayerList refs)"
    and mods: "map (lookup ?h0) refs = map (\<lambda>l. Some (Module l)) (layers m)"
    by (auto simp: represents_def split: option.splits object.splits)
  from rep0 d have cs0: "lookup ?h0 (out_channels_at d) = Some (IntList (out_channels m))"
    and ss0: "lookup ?h0 (output_feature_shape_at d) = Some (SizeList (output_feature_shape m))"
    by (simp_all add: represents_def)
  have out0: "lookup ?h0 ?out = Some (TensorList [])"
    by (simp add: lookup_def)
  from layer_loop_run [OF refs mods out0, of 0 num x] obtain r fs
    where loop: "layer_loop num (layers_at d) 0 x ?out ?h0 = Some (r, ?h0[?out := TensorList fs])"
      and res: "case run_layers num (layers m) x [] of
              Inl e \<Rightarrow> r = Inl e
            | Inr gs \<Rightarrow> r = Inr () \<and> fs = gs"
    by auto
  let ?h1 = "h @ [TensorList fs]"
  have h1: "?h0[?out := TensorList fs] = ?h1" by simp
  have self_ne: "self \<noteq> ?out" using d out0 by auto
  have d1: "lookup ?h1 self = Some (Instance d)"
    using d self_ne by (auto simp: lookup_def nth_append split: if_splits)
  have cs1: "attribute ?h1 self out_channels_at = Some (IntList (out_channels m))"
    using cs0 d1 by (auto simp: attribute_def lookup_def nth_append split: if_splits)
  have ss1: "attribute ?h1 self output_feature_shape_at = Some (SizeList (output_feature_shape m))"
    using ss0 d1 by (auto simp: attribute_def lookup_def nth_append split: if_splits)
  have out1: "lookup ?h1 ?out = Some (TensorList fs)"
    by (simp add: lookup_def)
  have asserts: "assert_loop self ?out 0 ?h1 = Some (check_shapes m 0 fs)"
    using assert_loop_check [OF out1 cs1 ss1, of 0] by simp
  have "forward_store num self x h = Some (fst (forward num m x), ?h1)"
  proof (cases "run_layers num (layers m) x []")
    case (Inl e)
    with res loop d show ?thesis
      by (simp add: forward_store_def new_def forward_def bind_def h1)
  next
    case (Inr gs)
    with res have r: "r = Inr ()" and fs: "fs = gs" by simp_all
    show ?thesis
    proof (cases "check_shapes m 0 gs")
      case (Inl e)
      with Inr r fs loop d asserts show ?thesis
        by (simp add: forward_store_def new_def forward_def bind_def h1)
    next
      case (Inr u)
      with \<open>run_layers num (layers m) x [] = Inr gs\<close> r fs loop d asserts out1 ss1 show ?thesis
        by (simp add: forward_store_def new_def forward_def bind_def h1)
    qed
  qed
  then show ?thesis ..
qed

subsection \<open>The example instances\<close>

text \<open>The example model on the example inputs, evaluated.\<close>

lemma example_init:
  "BasicModel_init example_channels 3 ofs = Inr (example_model ofs)"
  using init_long [of example_channels 3 ofs]
  by (auto simp: example_model_def example_channels_def)

lemma example_built: "built example_channels 3 ofs (example_model ofs)"
  using example_init by (rule init_Inr_built)

lemma example_run:
  "run_layers no_data (layers (example_model ofs)) example_input [] = Inr example_features"
  using example_built [of ofs]
  by (simp add: built_def example_channels_def example_input_def example_features_def float_tensor_def
        module_call_def no_data_def
        parameter_dtype_def parameter_device_def)

lemma example_fields:
  "out_channels (example_model ofs) = example_channels"
  "output_feature_shape (example_model ofs) = ofs"
  using example_built [of ofs] by (simp_all add: built_def)

lemma example_check:
  "check_shapes (example_model documented_feature_sizes) 0 example_features = Inr ()"
  by (simp add: check_shapes_step expected_shape_def example_fields
        example_channels_def example_features_def float_tensor_def documented_feature_sizes_def
        del: check_shapes.simps(2))

lemma example_forward:
  "fst (forward no_data (example_model documented_feature_sizes) example_input) = Inr example_features"
  by (simp add: forward_Inr_iff example_run example_check example_fields)
     (simp add: example_features_def float_tensor_def documented_feature_sizes_def)

lemma example_four_channel_forward:
  "fst (forward no_data (example_model ofs) four_channel_input) = Inl RuntimeError"
proof -
  have "run_layers no_data (layers (example_model ofs)) four_channel_input [] = Inl RuntimeError"
    using example_built [of ofs]
    by (simp add: built_def four_channel_input_def module_call_def
          parameter_dtype_def parameter_device_def)
  then show ?thesis by (simp add: forward_Inl_iff)
qed

lemma example_triple_forward:
  "fst (forward no_data (example_model triple_feature_sizes) example_input) = Inl ValueError"
proof -
  have "check_shapes (example_model triple_feature_sizes) 0 example_features = Inl ValueError"
    by (simp add: check_shapes_step expected_shape_def example_fields
        example_channels_def example_features_def float_tensor_def triple_feature_sizes_def
        del: check_shapes.simps(2))
  then show ?thesis by (simp add: forward_Inl_iff example_run)
qed

lemma example_unreadable_forward:
  "fst (forward no_data (example_model unreadable_feature_sizes) example_input) = Inl ValueError"
proof -
  have "check_shapes (example_model unreadable_feature_sizes) 0 example_features = Inl ValueError"
    by (simp add: check_shapes_step expected_shape_def example_fields
        example_channels_def example_features_def float_tensor_def unreadable_feature_sizes_def
        del: check_shapes.simps(2))
  then show ?thesis by (simp add: forward_Inl_iff example_run)
qed


lemma example_mismatched_forward:
  "fst (forward no_data (example_model mismatched_feature_sizes) example_input) =
     Inl (AssertionError (ShapeAssertion [128, 1, 1] [128, 38, 38] 0))"
proof -
  have "check_shapes (example_model mismatched_feature_sizes) 0 example_features =
      Inl (AssertionError (ShapeAssertion [128, 1, 1] [128, 38, 38] 0))"
    by (simp add: check_shapes_step expected_shape_def example_fields
        example_channels_def example_features_def float_tensor_def mismatched_feature_sizes_def
        del: check_shapes.simps(2))
  then show ?thesis by (simp add: forward_Inl_iff example_run)
qed

lemma batch_run:
  "run_layers no_data (layers (example_model ofs)) batch_input [] = Inr batch_features"
  using example_built [of ofs]
  by (simp add: built_def example_channels_def batch_input_def batch_features_def float_tensor_def
        module_call_def no_data_def
        parameter_dtype_def parameter_device_def)

lemma batch_forward:
  "fst (forward no_data (example_model documented_feature_sizes) batch_input) = Inr batch_features"
proof -
  have "check_shapes (example_model documented_feature_sizes) 0 batch_features = Inr ()"
    by (simp add: check_shapes_step expected_shape_def example_fields
        example_channels_def batch_features_def float_tensor_def documented_feature_sizes_def
        del: check_shapes.simps(2))
  then show ?thesis
    by (simp add: forward_Inr_iff batch_run example_fields)
       (simp add: batch_features_def float_tensor_def documented_feature_sizes_def)
qed

lemma example_represents:
  "represents (example_store ofs) example_self (example_model ofs)"
  using example_built [of ofs]
  by (simp add: represents_def example_store_def example_self_def lookup_def built_def)

section \<open>Properties of the forward pass\<close>

subsection \<open>The documented configuration\<close>

text \<open>
  C1, as stated: for every configuration and every batched input of the standard size
  300 by 300, \<open>forward\<close> returns six tensors whose channels, heights and widths are
  the configured ones. This fails for a configuration whose feature sizes are not the
  ones the network produces: with all sizes 1 by 1 the first assertion fails and
  nothing is returned.
\<close>

theorem forward_mismatched_sizes_counterexample:
  "BasicModel_init example_channels 3 mismatched_feature_sizes =
     Inr (example_model mismatched_feature_sizes) \<and>
   shape example_input = [1, 3, 300, 300] \<and>
   fst (forward no_data (example_model mismatched_feature_sizes) example_input) =
     Inl (AssertionError (ShapeAssertion [128, 1, 1] [128, 38, 38] 0))"
  using example_init [of mismatched_feature_sizes] example_mismatched_forward
  by (simp add: example_input_def)

text \<open>
  C1, amended: for every configuration with at least six output channel counts, the
  first six of them positive, a positive number of image channels and the documented
  feature sizes (38, 19, 10, 5, 3, 1), construction succeeds, and for every input of
  shape \<open>(n, image_channels, 300, 300)\<close> with at least one image, of the element
  type and on the device of the parameters that \<open>__init__\<close> creates, \<open>forward\<close>
  returns exactly six tensors, the \<open>i\<close>-th of shape
  \<open>(n, output_channels[i], h\<^sub>i, w\<^sub>i)\<close> with \<open>(h\<^sub>i, w\<^sub>i)\<close> the \<open>i\<close>-th configured feature
  size.
\<close>

theorem forward_documented_configuration:
  assumes "6 \<le> length output_channels" and "\<forall>i<6. 0 < output_channels ! i"
    and "0 < image_channels" and "0 < n" and "shape x = [n, image_channels, 300, 300]"
    and "dtype x = parameter_dtype" and "device x = parameter_device"
  shows "\<exists>self features.
           BasicModel_init output_channels image_channels documented_feature_sizes = Inr self \<and>
           fst (forward num self x) = Inr features \<and> length features = 6 \<and>
           (\<forall>i<6. shape (features ! i) =
                    n # output_channels ! i # documented_feature_sizes ! i)"
proof -
  from init_long [OF assms(1)] obtain self
    where init: "BasicModel_init output_channels image_channels documented_feature_sizes = Inr self"
    by blast
  then have b: "built output_channels image_channels documented_feature_sizes self"
    by (rule init_Inr_built)
  from built_run_standard [OF b assms(2) assms(3) assms(5) assms(6) assms(7), of num] obtain fs
    where run: "run_layers num (layers self) x [] = Inr fs"
      and shapes: "map shape fs =
        [[n, output_channels ! 0, 38, 38], [n, output_channels ! 1, 19, 19],
         [n, output_channels ! 2, 10, 10], [n, output_channels ! 3, 5, 5],
         [n, output_channels ! 4, 3, 3], [n, output_channels ! 5, 1, 1]]"
    by (elim exE conjE)
  from run_layers_length [OF run] b have len: "length fs = 6"
    by (simp add: built_layers_length)
  then obtain a0 a1 a2 a3 a4 a5 where fs: "fs = [a0, a1, a2, a3, a4, a5]"
    by (rule length_6_obtain)
  from b have fields: "out_channels self = output_channels"
    "output_feature_shape self = documented_feature_sizes"
    by (simp_all add: built_def)
  have "check_shapes self 0 fs = Inr ()"
    unfolding fs using shapes [unfolded fs] assms(1) fields by (rule check_shapes_documented)
  with run len fields have fwd: "fst (forward num self x) = Inr fs"
    by (simp add: forward_Inr_iff documented_feature_sizes_def)
  have "\<forall>i<6. shape (fs ! i) = n # output_channels ! i # documented_feature_sizes ! i"
    using shapes unfolding fs all_less_6 by (simp add: documented_feature_sizes_def)
  with init fwd len show ?thesis by (intro exI [of _ self] exI [of _ fs] conjI)
qed

theorem forward_documented_configuration_witness:
  "\<exists>self features.
     BasicModel_init example_channels 3 documented_feature_sizes = Inr self \<and>
     fst (forward no_data self example_input) = Inr features \<and> length features = 6 \<and>
     shape (features ! 0) = [1, 128, 38, 38] \<and> shape (features ! 5) = [1, 64, 1, 1]"
proof -
  have h1: "6 \<le> length example_channels" by (simp add: example_channels_def)
  have h2: "\<forall>i<6. 0 < example_channels ! i"
    unfolding all_less_6 by (simp add: example_channels_def)
  have h3: "0 < (3::nat)" by simp
  have h4: "0 < (1::nat)" by simp
  have h5: "shape example_input = [1, 3, 300, 300]" by (simp add: example_input_def)
  have h6: "dtype example_input = parameter_dtype"
    by (simp add: example_input_def parameter_dtype_def)
  have h7: "device example_input = parameter_device"
    by (simp add: example_input_def parameter_device_def)
  from forward_documented_configuration [OF h1 h2 h3 h4 h5 h6 h7, of no_data]
  obtain self features
    where init: "BasicModel_init example_channels 3 documented_feature_sizes = Inr self"
      and fwd: "fst (forward no_data self example_input) = Inr features"
      and len: "length features = 6"
      and all: "\<forall>i<6. shape (features ! i) = 1 # example_channels ! i # documented_feature_sizes ! i"
    by (elim exE conjE)
  from all have "shape (features ! 0) = [1, 128, 38, 38]" "shape (features ! 5) = [1, 64, 1, 1]"
    unfolding all_less_6 by (simp_all add: example_channels_def documented_feature_sizes_def)
  with init fwd len show ?thesis
    by (intro exI [of _ self] exI [of _ features]) simp
qed

subsection \<open>The number of returned feature maps\<close>

text \<open>
  C5. Whenever \<open>forward\<close> returns, the number of returned feature maps is the length
  of the configured \<open>output_feature_sizes\<close>; as one feature map is produced per stage
  and there are six stages, a return means that the configured list has exactly six
  entries.
\<close>

theorem forward_returns_configured_count:
  assumes "BasicModel_init output_channels image_channels output_feature_sizes = Inr self"
    and "fst (forward num self x) = Inr features"
  shows "length features = length (output_feature_shape self) \<and>
         length features = 6 \<and> length output_feature_sizes = 6"
proof -
  from assms(1) have b: "built output_channels image_channels output_feature_sizes self"
    by (rule init_Inr_built)
  from assms(2) have run: "run_layers num (layers self) x [] = Inr features"
    and len: "length features = length (output_feature_shape self)"
    by (simp_all add: forward_Inr_iff)
  from run have "length features = length (layers self)" by (rule run_layers_length)
  with b have "length features = 6" by (simp add: built_layers_length)
  moreover from b have "output_feature_shape self = output_feature_sizes" by (simp add: built_def)
  ultimately show ?thesis using len by simp
qed

theorem forward_returns_configured_count_witness:
  "BasicModel_init example_channels 3 documented_feature_sizes =
     Inr (example_model documented_feature_sizes) \<and>
   fst (forward no_data (example_model documented_feature_sizes) example_input) =
     Inr example_features \<and>
   length example_features = length (output_feature_shape (example_model documented_feature_sizes)) \<and>
   length example_features = 6 \<and> length documented_feature_sizes = 6"
  using forward_returns_configured_count [OF example_init example_forward]
    example_init [of documented_feature_sizes] example_forward
  by simp

subsection \<open>Spatial sizes\<close>

text \<open>
  C2. For an input with spatial size 300 by 300, the output-size arithmetic of the
  configured convolutions (kernel 3, padding 1, the last one of stage 6 with padding 0,
  strides as configured) and of the 2x2 stride-2 max-pools gives the stage sizes
  38, 19, 10, 5, 3 and 1, and these are the heights and widths of the features the
  first loop of \<open>forward\<close> produces.
\<close>

theorem stage_spatial_sizes:
  assumes "BasicModel_init output_channels image_channels output_feature_sizes = Inr self"
  shows "stage_sizes (layers self) 300 = [38, 19, 10, 5, 3, 1] \<and>
         (shape x = [n, c, 300, 300] \<longrightarrow> run_layers num (layers self) x [] = Inr features \<longrightarrow>
            map (drop 2 \<circ> shape) features =
              [[38, 38], [19, 19], [10, 10], [5, 5], [3, 3], [1, 1]])"
proof -
  from assms have b: "built output_channels image_channels output_feature_sizes self"
    by (rule init_Inr_built)
  then have sizes: "stage_sizes (layers self) 300 = [38, 19, 10, 5, 3, 1]"
    by (rule built_stage_sizes)
  have "map (drop 2 \<circ> shape) features = [[38, 38], [19, 19], [10, 10], [5, 5], [3, 3], [1, 1]]"
    if "shape x = [n, c, 300, 300]" and "run_layers num (layers self) x [] = Inr features"
    using run_layers_sizes [OF that(2) that(1)] sizes by simp
  with sizes show ?thesis by blast
qed

theorem stage_spatial_sizes_witness:
  "BasicModel_init example_channels 3 documented_feature_sizes =
     Inr (example_model documented_feature_sizes) \<and>
   stage_sizes (layers (example_model documented_feature_sizes)) 300 = [38, 19, 10, 5, 3, 1] \<and>
   shape example_input = [1, 3, 300, 300] \<and>
   run_layers no_data (layers (example_model documented_feature_sizes)) example_input [] =
     Inr example_features \<and>
   map (drop 2 \<circ> shape) example_features = [[38, 38], [19, 19], [10, 10], [5, 5], [3, 3], [1, 1]]"
  using stage_spatial_sizes [OF example_init, of documented_feature_sizes example_input 1 3
      no_data example_features]
    example_init [of documented_feature_sizes] example_run [of documented_feature_sizes]
  by (simp add: example_input_def)

subsection \<open>Sequential composition\<close>

text \<open>
  C6. \<open>forward\<close> is a sequential composition: the first returned feature is
  \<open>layer_1\<close> applied to the input, each later one is the next layer applied to the
  feature before it, and the features are returned in the order of the stages.
\<close>

theorem forward_sequential_composition:
  assumes "BasicModel_init output_channels image_channels output_feature_sizes = Inr self"
    and "fst (forward num self x) = Inr features"
  shows "layers self =
           [layer_1 self, layer_2 self, layer_3 self, layer_4 self, layer_5 self, layer_6 self] \<and>
         length features = 6 \<and>
         Sequential_call num (layer_1 self) x = Inr (features ! 0) \<and>
         Sequential_call num (layer_2 self) (features ! 0) = Inr (features ! 1) \<and>
         Sequential_call num (layer_3 self) (features ! 1) = Inr (features ! 2) \<and>
         Sequential_call num (layer_4 self) (features ! 2) = Inr (features ! 3) \<and>
         Sequential_call num (layer_5 self) (features ! 3) = Inr (features ! 4) \<and>
         Sequential_call num (layer_6 self) (features ! 4) = Inr (features ! 5)"
proof -
  from assms(1) have b: "built output_channels image_channels output_feature_sizes self"
    by (rule init_Inr_built)
  then have ls: "layers self =
      [layer_1 self, layer_2 self, layer_3 self, layer_4 self, layer_5 self, layer_6 self]"
    by (simp add: built_def)
  from assms(2) have run: "run_layers num (layers self) x [] = Inr features"
    by (simp add: forward_Inr_iff)
  have nth: "Sequential_call num (layers self ! i) (if i = 0 then x else features ! (i - 1)) =
      Inr (features ! i)" if "i < 6" for i
    using run_layers_nth [OF run, of i] that ls by simp
  from run_layers_length [OF run] ls have "length features = 6" by simp
  with ls nth [of 0] nth [of 1] nth [of 2] nth [of 3] nth [of 4] nth [of 5]
  show ?thesis by simp
qed

theorem forward_sequential_composition_witness:
  "BasicModel_init example_channels 3 documented_feature_sizes =
     Inr (example_model documented_feature_sizes) \<and>
   fst (forward no_data (example_model documented_feature_sizes) example_input) =
     Inr example_features \<and>
   length example_features = 6 \<and>
   Sequential_call no_data (layer_1 (example_model documented_feature_sizes)) example_input =
     Inr (example_features ! 0) \<and>
   Sequential_call no_data (layer_2 (example_model documented_feature_sizes))
     (example_features ! 0) = Inr (example_features ! 1) \<and>
   Sequential_call no_data (layer_3 (example_model documented_feature_sizes))
     (example_features ! 1) = Inr (example_features ! 2) \<and>
   Sequential_call no_data (layer_4 (example_model documented_feature_sizes))
     (example_features ! 2) = Inr (example_features ! 3) \<and>
   Sequential_call no_data (layer_5 (example_model documented_feature_sizes))
     (example_features ! 3) = Inr (example_features ! 4) \<and>
   Sequential_call no_data (layer_6 (example_model documented_feature_sizes))
     (example_features ! 4) = Inr (example_features ! 5)"
  using forward_sequential_composition [OF example_init example_forward]
    example_init [of documented_feature_sizes] example_forward
  by simp

subsection \<open>Channels of the stages\<close>

text \<open>
  C7. Construction takes the channel counts of the stages from \<open>output_channels\<close>:
  the last convolution of stage \<open>i + 1\<close> has \<open>output_channels[i]\<close> output channels
  (\<open>i\<close> from 0 to 5) and the first convolution of stage \<open>i + 2\<close> has
  \<open>output_channels[i]\<close> input channels (\<open>i\<close> from 0 to 4), so that the \<open>i\<close>-th feature
  map of a batched input has \<open>output_channels[i]\<close> channels.
\<close>

theorem init_stage_channels:
  assumes "BasicModel_init output_channels image_channels output_feature_sizes = Inr self"
  shows "(\<forall>i<6. final_conv_out_channels (layers self ! i) = Some (output_channels ! i)) \<and>
         (\<forall>i<5. first_conv_in_channels (layers self ! Suc i) = Some (output_channels ! i)) \<and>
         (shape x = [n, c, h, w] \<longrightarrow> run_layers num (layers self) x [] = Inr features \<longrightarrow>
            (\<forall>i<6. shape (features ! i) ! 1 = output_channels ! i))"
proof -
  from assms have b: "built output_channels image_channels output_feature_sizes self"
    by (rule init_Inr_built)
  from built_final_conv [OF b] built_first_conv [OF b] built_feature_channels [OF b]
  show ?thesis by blast
qed

theorem init_stage_channels_witness:
  "BasicModel_init example_channels 3 documented_feature_sizes =
     Inr (example_model documented_feature_sizes) \<and>
   final_conv_out_channels (layers (example_model documented_feature_sizes) ! 5) = Some 64 \<and>
   first_conv_in_channels (layers (example_model documented_feature_sizes) ! Suc 4) = Some 64 \<and>
   shape example_input = [1, 3, 300, 300] \<and>
   run_layers no_data (layers (example_model documented_feature_sizes)) example_input [] =
     Inr example_features \<and>
   shape (example_features ! 5) ! 1 = 64"
proof -
  note C = init_stage_channels [OF example_init, of documented_feature_sizes example_input 1 3
      300 300 no_data example_features]
  have "final_conv_out_channels (layers (example_model documented_feature_sizes) ! 5) =
      Some (example_channels ! 5)"
    using C [THEN conjunct1, rule_format, of 5] by simp
  moreover
  have "first_conv_in_channels (layers (example_model documented_feature_sizes) ! Suc 4) =
      Some (example_channels ! 4)"
    using C [THEN conjunct2, THEN conjunct1, rule_format, of 4] by simp
  moreover
  have "shape (example_features ! 5) ! 1 = example_channels ! 5"
    using C [THEN conjunct2, THEN conjunct2, rule_format, of 5]
      example_run [of documented_feature_sizes]
    by (simp add: example_input_def)
  ultimately show ?thesis
    using example_init [of documented_feature_sizes] example_run [of documented_feature_sizes]
    by (simp add: example_channels_def example_input_def)
qed

subsection \<open>Failures of the forward pass\<close>

text \<open>
  C3, as stated: the only failures of \<open>forward\<close> are the two assertion failures. This
  is not so. The layers check their input themselves: on an image with four channels
  the first convolution of a model built for three raises \<open>RuntimeError\<close>. And the
  loop unpacks the configured size before it asserts: on a size with three
  components the unpacking raises \<open>ValueError\<close>.
\<close>

theorem forward_other_errors_counterexample:
  "BasicModel_init example_channels 3 documented_feature_sizes =
     Inr (example_model documented_feature_sizes) \<and>
   fst (forward no_data (example_model documented_feature_sizes) four_channel_input) =
     Inl RuntimeError \<and>
   BasicModel_init example_channels 3 triple_feature_sizes =
     Inr (example_model triple_feature_sizes) \<and>
   fst (forward no_data (example_model triple_feature_sizes) example_input) = Inl ValueError"
  by (simp add: example_init example_four_channel_forward example_triple_forward)

text \<open>
  C3, amended: for a configuration with at least six feature sizes, when \<open>forward\<close>
  fails, either a layer raised (the framework's \<open>RuntimeError\<close>), or the six
  features were produced and the failure is one of: \<open>ValueError\<close>, with a configured
  feature size among the first six that is not a pair; the shape assertion at an
  index where the produced shape differs from the expected one, carrying both shapes
  and the index; the count assertion, with more than six configured feature sizes,
  carrying the configured length and 6.
\<close>

theorem forward_failures:
  assumes "BasicModel_init output_channels image_channels output_feature_sizes = Inr self"
    and "6 \<le> length output_feature_sizes"
    and "fst (forward num self x) = Inl e"
  shows "(e = RuntimeError \<and> run_layers num (layers self) x [] = Inl RuntimeError) \<or>
         (\<exists>features. run_layers num (layers self) x [] = Inr features \<and>
            ((e = ValueError \<and>
                (\<exists>idx<6. length (output_feature_sizes ! idx) \<noteq> 2)) \<or>
             (\<exists>idx<6. readable self idx \<and>
                drop 1 (shape (features ! idx)) \<noteq> expected_shape self idx \<and>
                e = AssertionError (ShapeAssertion (expected_shape self idx)
                                      (drop 1 (shape (features ! idx))) idx)) \<or>
             (e = AssertionError (LengthAssertion (length output_feature_sizes) 6) \<and>
                6 < length output_feature_sizes)))"
proof -
  from assms(1) have b: "built output_channels image_channels output_feature_sizes self"
    by (rule init_Inr_built)
  then have ofs: "output_feature_shape self = output_feature_sizes" by (simp add: built_def)
  from assms(3) consider
      (layers) "run_layers num (layers self) x [] = Inl e"
    | (check) fs where "run_layers num (layers self) x [] = Inr fs" "check_shapes self 0 fs = Inl e"
    | (count) fs where "run_layers num (layers self) x [] = Inr fs" "check_shapes self 0 fs = Inr ()"
        "length fs \<noteq> length (output_feature_shape self)"
        "e = AssertionError (LengthAssertion (length (output_feature_shape self)) (length fs))"
    unfolding forward_Inl_iff by auto
  then show ?thesis
  proof cases
    case layers
    from run_layers_fails [OF layers] layers show ?thesis by simp
  next
    case check
    from run_layers_length [OF check(1)] b have len: "length fs = 6"
      by (simp add: built_layers_length)
    from built_check_Inl [OF b len check(2)] assms(2) check(1) show ?thesis by auto
  next
    case count
    from run_layers_length [OF count(1)] b have len: "length fs = 6"
      by (simp add: built_layers_length)
    with count ofs assms(2) show ?thesis by auto
  qed
qed

theorem forward_failures_witness:
  "BasicModel_init example_channels 3 triple_feature_sizes =
     Inr (example_model triple_feature_sizes) \<and>
   6 \<le> length triple_feature_sizes \<and>
   fst (forward no_data (example_model triple_feature_sizes) example_input) = Inl ValueError \<and>
   run_layers no_data (layers (example_model triple_feature_sizes)) example_input [] =
     Inr example_features \<and>
   length (triple_feature_sizes ! 0) = 3"
proof -
  have six: "6 \<le> length triple_feature_sizes" by (simp add: triple_feature_sizes_def)
  from forward_failures [OF example_init six example_triple_forward]
  have "\<exists>features.
      run_layers no_data (layers (example_model triple_feature_sizes)) example_input [] =
        Inr features"
    by auto
  with example_run [of triple_feature_sizes] six example_triple_forward
    example_init [of triple_feature_sizes]
  show ?thesis by (simp add: triple_feature_sizes_def)
qed

subsection \<open>Mismatched configurations\<close>

text \<open>
  C4, as stated: for every configuration whose expected shapes do not match the
  produced ones, \<open>forward\<close> fails an assertion. This is not so: the loop reads and
  unpacks the configured size before it asserts. With a last size of 2 by 2 the
  sixth feature, of shape \<open>(64, 1, 1)\<close>, does not match, but the first size has three
  components and the unpacking at index 0 raises \<open>ValueError\<close>.
\<close>

theorem forward_unpacking_counterexample:
  "BasicModel_init example_channels 3 unreadable_feature_sizes =
     Inr (example_model unreadable_feature_sizes) \<and>
   run_layers no_data (layers (example_model unreadable_feature_sizes)) example_input [] =
     Inr example_features \<and>
   drop 1 (shape (example_features ! 5)) = [64, 1, 1] \<and>
   expected_shape (example_model unreadable_feature_sizes) 5 = [64, 2, 2] \<and>
   fst (forward no_data (example_model unreadable_feature_sizes) example_input) =
     Inl ValueError"
proof -
  have "drop 1 (shape (example_features ! 5)) = [64, 1, 1]"
    by (simp add: example_features_def float_tensor_def)
  moreover have "expected_shape (example_model unreadable_feature_sizes) 5 = [64, 2, 2]"
    by (simp add: expected_shape_def example_fields example_channels_def
          unreadable_feature_sizes_def)
  ultimately show ?thesis
    using example_init [of unreadable_feature_sizes] example_run [of unreadable_feature_sizes]
      example_unreadable_forward
    by simp
qed

text \<open>
  C4, amended: when some produced feature map's (channels, height, width) differs
  from the configured expected shape, \<open>forward\<close> returns no tuple of feature maps: it
  raises. When the configured lists can be read up to the index of that feature
  (both lists reach it and the sizes up to it are pairs), what it raises is the
  shape assertion, at the first index where the shapes differ.
\<close>

theorem forward_shape_mismatch:
  assumes "BasicModel_init output_channels image_channels output_feature_sizes = Inr self"
    and "run_layers num (layers self) x [] = Inr features"
    and "idx < 6"
    and "drop 1 (shape (features ! idx)) \<noteq> expected_shape self idx"
  shows "(\<exists>e. fst (forward num self x) = Inl e) \<and>
         ((\<forall>j\<le>idx. readable self j) \<longrightarrow>
            (\<exists>j\<le>idx. drop 1 (shape (features ! j)) \<noteq> expected_shape self j \<and>
               fst (forward num self x) =
                 Inl (AssertionError (ShapeAssertion (expected_shape self j)
                                        (drop 1 (shape (features ! j))) j))))"
proof -
  from assms(1) have b: "built output_channels image_channels output_feature_sizes self"
    by (rule init_Inr_built)
  from built_forward_mismatch [OF b assms(2) assms(3) assms(4)] show ?thesis
    by (intro conjI impI)
qed

theorem forward_shape_mismatch_witness:
  "BasicModel_init example_channels 3 mismatched_feature_sizes =
     Inr (example_model mismatched_feature_sizes) \<and>
   run_layers no_data (layers (example_model mismatched_feature_sizes)) example_input [] =
     Inr example_features \<and>
   drop 1 (shape (example_features ! 0)) = [128, 38, 38] \<and>
   expected_shape (example_model mismatched_feature_sizes) 0 = [128, 1, 1] \<and>
   readable (example_model mismatched_feature_sizes) 0 \<and>
   fst (forward no_data (example_model mismatched_feature_sizes) example_input) =
     Inl (AssertionError (ShapeAssertion [128, 1, 1] [128, 38, 38] 0))"
proof -
  have got: "drop 1 (shape (example_features ! 0)) = [128, 38, 38]"
    by (simp add: example_features_def float_tensor_def)
  have exp: "expected_shape (example_model mismatched_feature_sizes) 0 = [128, 1, 1]"
    by (simp add: expected_shape_def example_fields example_channels_def
          mismatched_feature_sizes_def)
  have r: "readable (example_model mismatched_feature_sizes) 0"
    by (simp add: readable_def example_fields example_channels_def mismatched_feature_sizes_def)
  have mis: "drop 1 (shape (example_features ! 0)) \<noteq>
      expected_shape (example_model mismatched_feature_sizes) 0"
    unfolding got exp by simp
  have "fst (forward no_data (example_model mismatched_feature_sizes) example_input) =
     Inl (AssertionError (ShapeAssertion [128, 1, 1] [128, 38, 38] 0))"
    using forward_shape_mismatch [OF example_init example_run _ mis] r got exp
    by simp
  with got exp r show ?thesis by (simp add: example_init example_run)
qed

subsection \<open>Index accesses\<close>




subsection \<open>The batch dimension is not asserted\<close>

text \<open>
  C9. The assertions of \<open>forward\<close> compare the dimensions 1 to 3 of each feature and
  never look at dimension 0: every returned feature map has rank 4 and the batch
  dimension of the input; the loop of assertions gives the same result for feature
  lists that agree on \<open>shape[1:]\<close>; and inputs that differ in the batch dimension
  only (same other dimensions, element type and device) have the same outcome, the
  same error or features with the same channels, heights and widths.
\<close>

theorem batch_dimension_unchecked:
  "(fst (forward num self x) = Inr features \<longrightarrow>
      (\<forall>f\<in>set features. length (shape f) = 4 \<and> shape f ! 0 = shape x ! 0)) \<and>
   (checked_dims fs = checked_dims fs' \<longrightarrow>
      check_shapes self idx fs = check_shapes self idx fs') \<and>
   (shape x = n # s \<longrightarrow> shape x' = n' # s \<longrightarrow> length s = 3 \<longrightarrow>
    dtype x' = dtype x \<longrightarrow> device x' = device x \<longrightarrow>
      outcome (fst (forward num self x)) = outcome (fst (forward num' self x')))"
proof (intro conjI impI ballI)
  fix f
  assume "fst (forward num self x) = Inr features" and "f \<in> set features"
  then have "length (shape f) = 4 \<and> length (shape x) = 4 \<and> shape f ! 0 = shape x ! 0"
    by (rule forward_batch)
  then show "length (shape f) = 4" and "shape f ! 0 = shape x ! 0" by simp_all
next
  assume "checked_dims fs = checked_dims fs'"
  then show "check_shapes self idx fs = check_shapes self idx fs'"
    unfolding checked_dims_def by (rule check_shapes_cong)
next
  assume "shape x = n # s" and "shape x' = n' # s" and "length s = 3"
    and "dtype x' = dtype x" and "device x' = device x"
  then show "outcome (fst (forward num self x)) = outcome (fst (forward num' self x'))"
    unfolding outcome_def checked_dims_def by (rule forward_batch_independent)
qed

theorem batch_dimension_unchecked_witness:
  "fst (forward no_data (example_model documented_feature_sizes) batch_input) =
     Inr batch_features \<and>
   shape (batch_features ! 5) ! 0 = 8 \<and> shape batch_input ! 0 = 8 \<and>
   checked_dims batch_features = checked_dims example_features \<and>
   check_shapes (example_model documented_feature_sizes) 0 batch_features =
     check_shapes (example_model documented_feature_sizes) 0 example_features \<and>
   shape batch_input = 8 # [3, 300, 300] \<and> shape example_input = 1 # [3, 300, 300] \<and>
   dtype example_input = dtype batch_input \<and> device example_input = device batch_input \<and>
   outcome (fst (forward no_data (example_model documented_feature_sizes) batch_input)) =
     outcome (fst (forward no_data (example_model documented_feature_sizes) example_input))"
proof -
  note C = batch_dimension_unchecked [of no_data "example_model documented_feature_sizes"
      batch_input batch_features batch_features example_features 0 8 "[3, 300, 300]"
      example_input 1 no_data]
  have dims: "checked_dims batch_features = checked_dims example_features"
    by (simp add: checked_dims_def batch_features_def example_features_def float_tensor_def)
  have mem: "batch_features ! 5 \<in> set batch_features" by (simp add: batch_features_def float_tensor_def)
  have sx: "shape batch_input = 8 # [3, 300, 300]" by (simp add: batch_input_def)
  have sx': "shape example_input = 1 # [3, 300, 300]" by (simp add: example_input_def)
  have ty: "dtype example_input = dtype batch_input" "device example_input = device batch_input"
    by (simp_all add: example_input_def batch_input_def)
  from C [THEN conjunct1, rule_format, OF batch_forward mem] sx
  have "shape (batch_features ! 5) ! 0 = 8" "shape batch_input ! 0 = 8" by simp_all
  moreover from C [THEN conjunct2, THEN conjunct1, rule_format, OF dims]
  have "check_shapes (example_model documented_feature_sizes) 0 batch_features =
     check_shapes (example_model documented_feature_sizes) 0 example_features" .
  moreover from C [THEN conjunct2, THEN conjunct2, rule_format, OF sx sx' _ ty]
  have "outcome (fst (forward no_data (example_model documented_feature_sizes) batch_input)) =
     outcome (fst (forward no_data (example_model documented_feature_sizes) example_input))"
    by simp
  ultimately show ?thesis using batch_forward dims sx sx' ty by simp
qed

subsection \<open>The object after the call\<close>

text \<open>
  C10. \<open>forward\<close> never modifies the object: after the call, whether it returned or
  raised, \<open>out_channels\<close>, \<open>output_feature_shape\<close> and the six stored layers are what
  they were before. On the store: whenever the store holds at \<open>self\<close> an instance with
  the field values \<open>m\<close>, the call ends, with the result or the exception of \<open>forward\<close>
  on \<open>m\<close>; every object that was in the store before the call is the same after it
  (the call only adds objects), so the instance at \<open>self\<close> still has the field values
  \<open>m\<close>.
\<close>

theorem forward_leaves_module_unchanged:
  assumes "represents h self m"
  shows "\<exists>h'. forward_store num self x h = Some (fst (forward num m x), h') \<and>
           take (length h) h' = h \<and> represents h' self m"
proof -
  from forward_store_forward [OF assms, of num x] obtain fs
    where "forward_store num self x h = Some (fst (forward num m x), h @ [TensorList fs])" ..
  moreover have "take (length h) (h @ [TensorList fs]) = h" by simp
  moreover have "represents (h @ [TensorList fs]) self m"
    using assms by (rule represents_new)
  ultimately show ?thesis by (intro exI [of _ "h @ [TensorList fs]"] conjI)
qed

text \<open>
  The example model in its store: a call that returns the six features, and a call
  that raises on the first assertion.
\<close>

theorem forward_leaves_module_unchanged_witness:
  "represents (example_store documented_feature_sizes) example_self
     (example_model documented_feature_sizes) \<and>
   (\<exists>h'. forward_store no_data example_self example_input
            (example_store documented_feature_sizes) = Some (Inr example_features, h') \<and>
          take (length (example_store documented_feature_sizes)) h' =
            example_store documented_feature_sizes \<and>
          represents h' example_self (example_model documented_feature_sizes)) \<and>
   represents (example_store mismatched_feature_sizes) example_self
     (example_model mismatched_feature_sizes) \<and>
   (\<exists>h'. forward_store no_data example_self example_input
            (example_store mismatched_feature_sizes) =
            Some (Inl (AssertionError (ShapeAssertion [128, 1, 1] [128, 38, 38] 0)), h') \<and>
          take (length (example_store mismatched_feature_sizes)) h' =
            example_store mismatched_feature_sizes \<and>
          represents h' example_self (example_model mismatched_feature_sizes))"
  using forward_leaves_module_unchanged [of "example_store documented_feature_sizes"
      example_self "example_model documented_feature_sizes" no_data example_input]
    forward_leaves_module_unchanged [of "example_store mismatched_feature_sizes"
      example_self "example_model mismatched_feature_sizes" no_data example_input]
  by (simp add: example_represents example_forward example_mismatched_forward)

end
